theory Spec2Isabelle
  imports Complex_Main "HOL-Library.Log_Nat"
begin

section \<open>Python values used by the splitter\<close>

text \<open>
  The embedding follows \<^verbatim>\<open>src/video_splitter/splitter.py\<close>.  A Python \<^verbatim>\<open>float\<close> is an
  IEEE binary64 number: a finite one is represented by the rational number it denotes,
  and every operation rounds its exact result to the nearest binary64 number (ties to
  even) or overflows to an infinity.  The sign of a zero is not recorded; no operation
  of the program makes it visible to a comparison.
\<close>

datatype pyfloat = Fin rat | PosInf | NegInf | NaN

text \<open>A Python number is an unbounded \<^verbatim>\<open>int\<close> or a \<^verbatim>\<open>float\<close>.\<close>

datatype pynum = PInt int | PFloat pyfloat

text \<open>
  The values \<^verbatim>\<open>yaml.safe_load\<close> hands to the program: null, booleans, integers, floats,
  strings, sequences and mappings.  A mapping is the list of its items in document order;
  a Python \<^verbatim>\<open>dict\<close> has no duplicate keys.  Strings are lists of 8-bit characters.
\<close>

datatype pyval =
    VNone
  | VBool bool
  | VInt int
  | VFloat pyfloat
  | VStr string
  | VList "pyval list"
  | VDict "(pyval \<times> pyval) list"

text \<open>
  The exceptions the modelled code can raise.  \<open>InvalidTimeFormat\<close> is the
  \<^verbatim>\<open>AssertionError\<close> of line 69 (message \<^verbatim>\<open>Invalid time format\<close>), \<open>InvalidSectionConfig\<close>
  the \<^verbatim>\<open>ValueError\<close> of line 127 (message \<^verbatim>\<open>Invalid section config\<close>); \<open>ValueError\<close>
  stands for every other \<^verbatim>\<open>ValueError\<close>: \<^verbatim>\<open>float()\<close> on a string that is no number,
  \<^verbatim>\<open>int()\<close> on a NaN or on too long a string of digits.  \<open>OverflowError\<close> is raised when
  an \<^verbatim>\<open>int\<close> too large for a float is converted to one, and by \<^verbatim>\<open>int()\<close> on an infinity.
\<close>

datatype error =
    InvalidTimeFormat
  | InvalidSectionConfig
  | ValueError
  | OverflowError
  | TypeError
  | AttributeError

text \<open>Sequencing of computations that may raise.\<close>

definition bind :: "error + 'a \<Rightarrow> ('a \<Rightarrow> error + 'b) \<Rightarrow> error + 'b" where
  "bind x f = (case x of Inl e \<Rightarrow> Inl e | Inr a \<Rightarrow> f a)"

section \<open>Rounding to binary64\<close>

definition pow2 :: "int \<Rightarrow> rat" where
  "pow2 e = (if 0 \<le> e then 2 ^ nat e else 1 / 2 ^ nat (- e))"

text \<open>For \<open>x > 0\<close>, the exponent \<open>e\<close> with \<open>2 ^ e \<le> x < 2 ^ (e + 1)\<close>.\<close>

definition ilog2 :: "rat \<Rightarrow> int" where
  "ilog2 x = (if 1 \<le> x then bitlen \<lfloor>x\<rfloor> - 1 else - bitlen (\<lceil>1 / x\<rceil> - 1))"

definition round_half_even :: "rat \<Rightarrow> int" where
  "round_half_even y =
     (let f = \<lfloor>y\<rfloor>; d = y - of_int f
      in if d < 1 / 2 then f
         else if 1 / 2 < d then f + 1
         else if even f then f
         else f + 1)"

text \<open>
  The binary64 numbers near \<open>x\<close> are the multiples of \<open>2 ^ (e - 52)\<close>, where \<open>e\<close> is the
  exponent of \<open>x\<close> but at least \<open>-1022\<close> (below that the numbers are subnormal).  \<open>rnd\<close>
  picks the nearest multiple; \<open>round64\<close> turns a result beyond the largest finite number
  into an infinity.
\<close>

definition rnd :: "rat \<Rightarrow> rat" where
  "rnd x =
     (if x = 0 then 0
      else (let q = pow2 (max (ilog2 \<bar>x\<bar>) (- 1022) - 52)
            in of_int (round_half_even (x / q)) * q))"

definition round64 :: "rat \<Rightarrow> pyfloat" where
  "round64 x =
     (let y = rnd x
      in if 2 ^ 1024 \<le> y then PosInf
         else if y \<le> - (2 ^ 1024) then NegInf
         else Fin y)"

section \<open>Float arithmetic\<close>

fun fneg :: "pyfloat \<Rightarrow> pyfloat" where
  "fneg (Fin a) = Fin (- a)"
| "fneg PosInf = NegInf"
| "fneg NegInf = PosInf"
| "fneg NaN = NaN"

fun fadd :: "pyfloat \<Rightarrow> pyfloat \<Rightarrow> pyfloat" where
  "fadd (Fin a) (Fin b) = round64 (a + b)"
| "fadd NaN y = NaN"
| "fadd x NaN = NaN"
| "fadd PosInf NegInf = NaN"
| "fadd NegInf PosInf = NaN"
| "fadd PosInf y = PosInf"
| "fadd x PosInf = PosInf"
| "fadd NegInf y = NegInf"
| "fadd x NegInf = NegInf"

definition fsub :: "pyfloat \<Rightarrow> pyfloat \<Rightarrow> pyfloat" where
  "fsub x y = fadd x (fneg y)"

text \<open>The sign of a float as \<open>-1\<close>, \<open>0\<close> or \<open>1\<close>; it is only asked of a number.\<close>

fun fsign :: "pyfloat \<Rightarrow> int" where
  "fsign (Fin a) = (if a < 0 then - 1 else if a = 0 then 0 else 1)"
| "fsign PosInf = 1"
| "fsign NegInf = - 1"
| "fsign NaN = 0"

fun fmul :: "pyfloat \<Rightarrow> pyfloat \<Rightarrow> pyfloat" where
  "fmul (Fin a) (Fin b) = round64 (a * b)"
| "fmul NaN y = NaN"
| "fmul x NaN = NaN"
| "fmul x y =
     (if fsign x * fsign y = 0 then NaN
      else if 0 < fsign x * fsign y then PosInf
      else NegInf)"

text \<open>Division by, and the C function \<^verbatim>\<open>fmod\<close> for, a finite divisor \<open>w > 0\<close>.\<close>

fun fdiv :: "pyfloat \<Rightarrow> rat \<Rightarrow> pyfloat" where
  "fdiv (Fin a) w = round64 (a / w)"
| "fdiv x w = x"

definition trunc :: "rat \<Rightarrow> int" where
  "trunc r = (if 0 \<le> r then \<lfloor>r\<rfloor> else \<lceil>r\<rceil>)"

fun fmod :: "pyfloat \<Rightarrow> rat \<Rightarrow> pyfloat" where
  "fmod (Fin a) w = Fin (a - w * of_int (trunc (a / w)))"
| "fmod x w = NaN"

fun ffloor :: "pyfloat \<Rightarrow> pyfloat" where
  "ffloor (Fin a) = Fin (of_int \<lfloor>a\<rfloor>)"
| "ffloor x = x"

text \<open>\<^verbatim>\<open>x < 0\<close> and \<^verbatim>\<open>x > 0.5\<close> on floats; a comparison with a NaN is false.\<close>

fun fnegative :: "pyfloat \<Rightarrow> bool" where
  "fnegative (Fin a) = (a < 0)"
| "fnegative NegInf = True"
| "fnegative x = False"

fun fabove_half :: "pyfloat \<Rightarrow> bool" where
  "fabove_half (Fin a) = (1 / 2 < a)"
| "fabove_half PosInf = True"
| "fabove_half x = False"

text \<open>
  The interpreter's \<^verbatim>\<open>float.__mod__\<close> and \<^verbatim>\<open>float.__floordiv__\<close> for a divisor \<open>w > 0\<close>,
  step by step as its C code computes them: \<^verbatim>\<open>mod = fmod(vx, wx)\<close>, to which \<open>wx\<close> is
  added if it is negative; \<^verbatim>\<open>div = (vx - mod) / wx\<close>, less one in that same case, snapped
  to the nearest whole number.
\<close>

definition float_rem :: "pyfloat \<Rightarrow> rat \<Rightarrow> pyfloat" where
  "float_rem vx wx =
     (let md = fmod vx wx
      in if fnegative md then fadd md (Fin wx) else md)"

definition float_floor_div :: "pyfloat \<Rightarrow> rat \<Rightarrow> pyfloat" where
  "float_floor_div vx wx =
     (let md = fmod vx wx;
          dv = fdiv (fsub vx md) wx;
          dv = (if fnegative md then fsub dv (Fin 1) else dv)
      in if dv = Fin 0 then Fin 0
         else (let fl = ffloor dv
               in if fabove_half (fsub dv fl) then fadd fl (Fin 1) else fl))"

section \<open>Arithmetic of Python numbers\<close>

text \<open>
  \<^verbatim>\<open>float(i)\<close> for an \<^verbatim>\<open>int\<close>: the nearest float, or \<^verbatim>\<open>OverflowError\<close>.  An operation on
  an \<^verbatim>\<open>int\<close> and a \<^verbatim>\<open>float\<close> converts the \<^verbatim>\<open>int\<close> first.
\<close>

definition float_of_int :: "int \<Rightarrow> error + pyfloat" where
  "float_of_int i =
     (case round64 (of_int i) of
        Fin r \<Rightarrow> Inr (Fin r)
      | PosInf \<Rightarrow> Inl OverflowError
      | NegInf \<Rightarrow> Inl OverflowError
      | NaN \<Rightarrow> Inl OverflowError)"

fun to_float :: "pynum \<Rightarrow> error + pyfloat" where
  "to_float (PInt i) = float_of_int i"
| "to_float (PFloat f) = Inr f"

definition float_op ::
  "(pyfloat \<Rightarrow> pyfloat \<Rightarrow> pyfloat) \<Rightarrow> pynum \<Rightarrow> pynum \<Rightarrow> error + pynum" where
  "float_op f x y = bind (to_float x) (\<lambda>a. bind (to_float y) (\<lambda>b. Inr (PFloat (f a b))))"

fun py_add :: "pynum \<Rightarrow> pynum \<Rightarrow> error + pynum" where
  "py_add (PInt a) (PInt b) = Inr (PInt (a + b))"
| "py_add x y = float_op fadd x y"

fun py_sub :: "pynum \<Rightarrow> pynum \<Rightarrow> error + pynum" where
  "py_sub (PInt a) (PInt b) = Inr (PInt (a - b))"
| "py_sub x y = float_op fsub x y"

fun py_mul :: "pynum \<Rightarrow> pynum \<Rightarrow> error + pynum" where
  "py_mul (PInt a) (PInt b) = Inr (PInt (a * b))"
| "py_mul x y = float_op fmul x y"

text \<open>
  \<^verbatim>\<open>x // d\<close> and \<^verbatim>\<open>x % d\<close> for the positive integer literals \<open>d\<close> of the source
  (\<open>60\<close> and \<open>1\<close>), which a float operand sees as the float \<open>d\<close>.
\<close>

fun py_floordiv :: "pynum \<Rightarrow> int \<Rightarrow> pynum" where
  "py_floordiv (PInt a) d = PInt (a div d)"
| "py_floordiv (PFloat f) d = PFloat (float_floor_div f (of_int d))"

fun py_mod :: "pynum \<Rightarrow> int \<Rightarrow> pynum" where
  "py_mod (PInt a) d = PInt (a mod d)"
| "py_mod (PFloat f) d = PFloat (float_rem f (of_int d))"

text \<open>\<^verbatim>\<open>int(x)\<close> truncates a finite number towards zero.\<close>

fun py_int :: "pynum \<Rightarrow> error + int" where
  "py_int (PInt i) = Inr i"
| "py_int (PFloat (Fin r)) = Inr (trunc r)"
| "py_int (PFloat NaN) = Inl ValueError"
| "py_int (PFloat x) = Inl OverflowError"

text \<open>
  \<^verbatim>\<open>x >= k\<close> for an integer literal \<open>k\<close>.  Python compares an \<^verbatim>\<open>int\<close> and a \<^verbatim>\<open>float\<close> by
  their exact values; a NaN is not greater or equal to anything.
\<close>

fun py_ge :: "pynum \<Rightarrow> int \<Rightarrow> bool" where
  "py_ge (PInt i) k = (k \<le> i)"
| "py_ge (PFloat (Fin r)) k = (of_int k \<le> r)"
| "py_ge (PFloat PosInf) k = True"
| "py_ge (PFloat x) k = False"

text \<open>\<^verbatim>\<open>x == y\<close> on numbers: by exact value, and false whenever a NaN is involved.\<close>

fun py_eq :: "pynum \<Rightarrow> pynum \<Rightarrow> bool" where
  "py_eq (PInt a) (PInt b) = (a = b)"
| "py_eq (PInt a) (PFloat (Fin r)) = (of_int a = r)"
| "py_eq (PFloat (Fin r)) (PInt b) = (r = of_int b)"
| "py_eq (PFloat NaN) y = False"
| "py_eq x (PFloat NaN) = False"
| "py_eq (PFloat x) (PFloat y) = (x = y)"
| "py_eq x y = False"

section \<open>Characters and digit strings\<close>

text \<open>
  Among 8-bit characters \<^verbatim>\<open>\d\<close> matches exactly the ten ASCII digits and \<^verbatim>\<open>\s\<close> the
  characters for which \<^verbatim>\<open>str.isspace\<close> holds.
\<close>

definition is_digit :: "char \<Rightarrow> bool" where
  "is_digit c = (c \<in> set ''0123456789'')"

definition is_space :: "char \<Rightarrow> bool" where
  "is_space c = ((of_char c :: nat) \<in> set [9, 10, 11, 12, 13, 28, 29, 30, 31, 32, 133, 160])"

definition digit_val :: "char \<Rightarrow> int" where
  "digit_val c = of_char c - 48"

text \<open>The number that a string of digits denotes, most significant digit first.\<close>

definition digits_value :: "string \<Rightarrow> int" where
  "digits_value ds = foldl (\<lambda>acc c. 10 * acc + digit_val c) 0 ds"

text \<open>
  \<^verbatim>\<open>int(ds)\<close> for a group of digits.  The interpreter refuses a string of more than
  4300 digits (the default of \<^verbatim>\<open>sys.int_max_str_digits\<close>) with \<^verbatim>\<open>ValueError\<close>.
\<close>

definition int_of_digits :: "string \<Rightarrow> error + int" where
  "int_of_digits ds = (if 4300 < length ds then Inl ValueError else Inr (digits_value ds))"

section \<open>Coercion to a float: \<^verbatim>\<open>float(t)\<close>\<close>

text \<open>
  \<^verbatim>\<open>float(t)\<close> on a string strips surrounding whitespace, removes underscores that stand
  between two digits (any other underscore is an error), and then accepts, after an
  optional sign, either \<^verbatim>\<open>inf\<close>, \<^verbatim>\<open>infinity\<close> or \<^verbatim>\<open>nan\<close> in any letter case, or a decimal
  numeral \<^verbatim>\<open>digits[.digits][e[sign]digits]\<close> with at least one digit before the exponent.
  The whole string has to be consumed; otherwise \<^verbatim>\<open>ValueError\<close> is raised, which is
  \<open>None\<close> here.  \<open>parse_literal\<close> reads what the string denotes; \<open>float_of_string\<close> rounds
  a numeral to the nearest float, so a numeral beyond the float range gives an infinity.
\<close>

datatype literal = LitNum rat | LitInf bool | LitNaN

definition is_float_space :: "char \<Rightarrow> bool" where
  "is_float_space c = ((of_char c :: nat) \<in> set [9, 10, 11, 12, 13, 32, 133, 160])"

definition strip :: "string \<Rightarrow> string" where
  "strip t = rev (dropWhile is_float_space (rev (dropWhile is_float_space t)))"

fun drop_underscores :: "char \<Rightarrow> string \<Rightarrow> string option" where
  "drop_underscores prev [] = (if prev = CHR ''_'' then None else Some [])"
| "drop_underscores prev (c # cs) =
     (if c = CHR ''_'' then (if is_digit prev then drop_underscores c cs else None)
      else if prev = CHR ''_'' \<and> \<not> is_digit c then None
      else map_option ((#) c) (drop_underscores c cs))"

definition split_sign :: "string \<Rightarrow> bool \<times> string" where
  "split_sign t =
     (case t of
        [] \<Rightarrow> (False, [])
      | c # cs \<Rightarrow>
          if c = CHR ''-'' then (True, cs)
          else if c = CHR ''+'' then (False, cs)
          else (False, t))"

text \<open>Comparison with a lower-case word, ignoring the case of ASCII letters.\<close>

definition same_letter :: "char \<Rightarrow> char \<Rightarrow> bool" where
  "same_letter c p = (c = p \<or> (of_char c :: nat) + 32 = of_char p)"

definition match_ci :: "string \<Rightarrow> string \<Rightarrow> bool" where
  "match_ci t w = list_all2 same_letter t w"

definition pow10 :: "int \<Rightarrow> rat" where
  "pow10 e = (if 0 \<le> e then 10 ^ nat e else 1 / 10 ^ nat (- e))"

definition parse_exponent :: "string \<Rightarrow> int option" where
  "parse_exponent t =
     (let (neg, ds) = split_sign t
      in if ds \<noteq> [] \<and> list_all is_digit ds
         then Some (if neg then - digits_value ds else digits_value ds)
         else None)"

definition parse_decimal :: "string \<Rightarrow> rat option" where
  "parse_decimal t =
     (let ip = takeWhile is_digit t;
          r1 = dropWhile is_digit t;
          (fp, r2) =
            (case r1 of
               [] \<Rightarrow> ([], [])
             | c # cs \<Rightarrow>
                 if c = CHR ''.'' then (takeWhile is_digit cs, dropWhile is_digit cs)
                 else ([], r1))
      in if ip = [] \<and> fp = [] then None
         else
           (let mant = of_int (digits_value (ip @ fp)) / 10 ^ length fp
            in case r2 of
                 [] \<Rightarrow> Some mant
               | c # cs \<Rightarrow>
                   if c \<in> set ''eE''
                   then map_option (\<lambda>e. mant * pow10 e) (parse_exponent cs)
                   else None))"

definition parse_literal :: "string \<Rightarrow> literal option" where
  "parse_literal t =
     (case drop_underscores (CHR 0x00) (strip t) of
        None \<Rightarrow> None
      | Some u \<Rightarrow>
          (let (neg, body) = split_sign u
           in if match_ci body ''inf'' \<or> match_ci body ''infinity'' then Some (LitInf neg)
              else if match_ci body ''nan'' then Some LitNaN
              else map_option (\<lambda>r. LitNum (if neg then - r else r)) (parse_decimal body)))"

fun float_of_literal :: "literal \<Rightarrow> pyfloat" where
  "float_of_literal (LitNum r) = round64 r"
| "float_of_literal (LitInf neg) = (if neg then NegInf else PosInf)"
| "float_of_literal LitNaN = NaN"

definition float_of_string :: "string \<Rightarrow> pyfloat option" where
  "float_of_string t = map_option float_of_literal (parse_literal t)"

text \<open>
  \<^verbatim>\<open>float(t)\<close> on any value: a string is parsed, a number is converted, everything else
  raises \<^verbatim>\<open>TypeError\<close>.
\<close>

fun py_float :: "pyval \<Rightarrow> error + pyfloat" where
  "py_float (VStr t) = (case float_of_string t of None \<Rightarrow> Inl ValueError | Some f \<Rightarrow> Inr f)"
| "py_float (VFloat f) = Inr f"
| "py_float (VInt i) = float_of_int i"
| "py_float (VBool b) = Inr (Fin (if b then 1 else 0))"
| "py_float VNone = Inl TypeError"
| "py_float (VList xs) = Inl TypeError"
| "py_float (VDict kvs) = Inl TypeError"

section \<open>The data model: \<^verbatim>\<open>Timestamp\<close> and \<^verbatim>\<open>Section\<close>\<close>

text \<open>
  \<^verbatim>\<open>Timestamp\<close> is a named tuple of three numbers.  The selectors carry a prefix so that
  the letters stay free for variables.  The plain tuple \<^verbatim>\<open>(0,0,0)\<close> of \<^verbatim>\<open>load_config\<close> is
  represented by the same type: the modelled code reads a start time by position only.
\<close>

datatype timestamp = Timestamp (ts_h: pynum) (ts_m: pynum) (ts_s: pynum)

text \<open>
  The \<^verbatim>\<open>end\<close> field of a \<^verbatim>\<open>Section\<close> is declared \<^verbatim>\<open>Timestamp | None\<close>; \<^verbatim>\<open>load_config\<close>
  also stores the integer \<open>-1\<close> there.  The field is called \<open>sec_end\<close> here, since
  \<open>end\<close> is a keyword.
\<close>

datatype endval = EndNone | EndInt int | EndTime timestamp

record Section =
  name :: pyval
  start :: timestamp
  sec_end :: endval

text \<open>
  \<^verbatim>\<open>t[0] * 3600 + t[1] * 60 + t[2]\<close>, the expression of lines 22 and 28, evaluated
  from left to right.
\<close>

definition total_seconds :: "timestamp \<Rightarrow> error + pynum" where
  "total_seconds t =
     bind (py_mul (ts_h t) (PInt 3600)) (\<lambda>a.
     bind (py_mul (ts_m t) (PInt 60)) (\<lambda>b.
     bind (py_add a b) (\<lambda>c.
     py_add c (ts_s t))))"

definition start_seconds :: "Section \<Rightarrow> error + pynum" where
  "start_seconds sec = total_seconds (start sec)"

text \<open>
  The property \<^verbatim>\<open>duration\<close>: \<open>None\<close> when \<^verbatim>\<open>end is None\<close>; subscripting an integer
  raises \<^verbatim>\<open>TypeError\<close>.
\<close>

definition duration :: "Section \<Rightarrow> error + pynum option" where
  "duration sec =
     (case sec_end sec of
        EndNone \<Rightarrow> Inr None
      | EndInt i \<Rightarrow> Inl TypeError
      | EndTime e \<Rightarrow>
          bind (total_seconds e) (\<lambda>end_seconds.
          bind (start_seconds sec) (\<lambda>s.
          bind (py_sub end_seconds s) (\<lambda>d. Inr (Some d)))))"

section \<open>The timestamp parser: \<^verbatim>\<open>parse_time\<close>\<close>

text \<open>
  Lines 54 to 57: a float \<open>t\<close> is a count of minutes.  For a NaN or an infinity
  \<^verbatim>\<open>t // 60\<close> is a NaN, on which \<^verbatim>\<open>int\<close> raises \<^verbatim>\<open>ValueError\<close>.
\<close>

definition minutes_shape :: "pyfloat \<Rightarrow> error + timestamp" where
  "minutes_shape t =
     bind (py_int (py_floordiv (PFloat t) 60)) (\<lambda>h.
     bind (py_int (py_mod (PFloat t) 60)) (\<lambda>m.
     bind (py_mul (py_mod (PFloat t) 1) (PInt 60)) (\<lambda>s.
     Inr (Timestamp (PInt h) (PInt m) s))))"

text \<open>
  \<^verbatim>\<open>re.match(colon_re, t)\<close> with
  \<^verbatim>\<open>colon_re = (?P<hours>\d+)?:(?P<minutes>\d+):(?P<seconds>\d+)\<close>.  The match is anchored
  at the start of \<open>t\<close> and need not reach its end.  Every \<^verbatim>\<open>\d+\<close> is greedy, and giving
  digits back never helps, since the next thing to match is a colon (or nothing): so each
  group is the longest run of digits at its place.  The result is the group dictionary,
  \<open>None\<close> for the group \<^verbatim>\<open>hours\<close> when it took no part in the match.
\<close>

definition match_colon_re :: "string \<Rightarrow> (string option \<times> string \<times> string) option" where
  "match_colon_re t =
     (let hours = takeWhile is_digit t
      in case dropWhile is_digit t of
           [] \<Rightarrow> None
         | c1 # r1 \<Rightarrow>
             if c1 \<noteq> CHR '':'' then None
             else
               (let minutes = takeWhile is_digit r1
                in case dropWhile is_digit r1 of
                     [] \<Rightarrow> None
                   | c2 # r2 \<Rightarrow>
                       if minutes = [] \<or> c2 \<noteq> CHR '':'' then None
                       else
                         (let seconds = takeWhile is_digit r2
                          in if seconds = [] then None
                             else Some (if hours = [] then None else Some hours,
                                        minutes, seconds))))"

text \<open>
  One optional component \<^verbatim>\<open>((?P<g>\d+)[xX],?\s*)?\<close> of \<^verbatim>\<open>letter_re\<close>: the digits, one
  of the two letters, an optional comma, any whitespace.  It returns the group and the rest
  of the string; when the component does not match here, the group is \<open>None\<close> and nothing
  is consumed.
\<close>

definition letter_component :: "string \<Rightarrow> string \<Rightarrow> string option \<times> string" where
  "letter_component letters t =
     (let ds = takeWhile is_digit t
      in case dropWhile is_digit t of
           [] \<Rightarrow> (None, t)
         | c # r \<Rightarrow>
             if ds = [] \<or> c \<notin> set letters then (None, t)
             else (Some ds,
                   dropWhile is_space
                     (case r of [] \<Rightarrow> [] | c' # r' \<Rightarrow> if c' = CHR '','' then r' else r)))"

text \<open>
  \<^verbatim>\<open>re.match(letter_re, t)\<close>: the three optional components in a row.  Since each is
  optional the pattern matches every string, at worst the empty prefix.
\<close>

definition match_letter_re ::
  "string \<Rightarrow> (string option \<times> string option \<times> string option) option" where
  "match_letter_re t =
     (let (hours, r1) = letter_component ''hH'' t;
          (minutes, r2) = letter_component ''mM'' r1;
          (seconds, r3) = letter_component ''sS'' r2
      in Some (hours, minutes, seconds))"

text \<open>
  \<^verbatim>\<open>int(g)\<close> and \<^verbatim>\<open>float(g)\<close> for a group that took part in the match, and
  \<^verbatim>\<open>int(g) if g is not None else 0\<close>, \<^verbatim>\<open>float(g) if g is not None else 0\<close>.
\<close>

definition int_of_group :: "string \<Rightarrow> error + pynum" where
  "int_of_group ds = bind (int_of_digits ds) (\<lambda>i. Inr (PInt i))"

definition float_of_group :: "string \<Rightarrow> error + pynum" where
  "float_of_group ds =
     (case float_of_string ds of None \<Rightarrow> Inl ValueError | Some f \<Rightarrow> Inr (PFloat f))"

definition int_group :: "string option \<Rightarrow> error + pynum" where
  "int_group g = (case g of None \<Rightarrow> Inr (PInt 0) | Some ds \<Rightarrow> int_of_group ds)"

definition float_group :: "string option \<Rightarrow> error + pynum" where
  "float_group g = (case g of None \<Rightarrow> Inr (PInt 0) | Some ds \<Rightarrow> float_of_group ds)"

text \<open>Lines 59 to 73: the raw components \<open>(h, m, s)\<close> of a string that is not a number.\<close>

definition raw_components :: "string \<Rightarrow> error + pynum \<times> pynum \<times> pynum" where
  "raw_components t =
     (case match_colon_re t of
        Some (hours, minutes, seconds) \<Rightarrow>
          bind (int_group hours) (\<lambda>h.
          bind (int_of_group minutes) (\<lambda>m.
          bind (float_of_group seconds) (\<lambda>s.
          Inr (h, m, s))))
      | None \<Rightarrow>
          (case match_letter_re t of
             None \<Rightarrow> Inl InvalidTimeFormat
           | Some (hours, minutes, seconds) \<Rightarrow>
               bind (int_group hours) (\<lambda>h.
               bind (int_group minutes) (\<lambda>m.
               bind (float_group seconds) (\<lambda>s.
               Inr (h, m, s))))))"

text \<open>Lines 75 to 81: seconds carry into minutes, then minutes into hours.\<close>

definition carry :: "pynum \<Rightarrow> pynum \<Rightarrow> error + pynum \<times> pynum" where
  "carry hi lo =
     (if py_ge lo 60
      then bind (py_add hi (py_floordiv lo 60)) (\<lambda>hi'. Inr (hi', py_mod lo 60))
      else Inr (hi, lo))"

definition normalize :: "pynum \<times> pynum \<times> pynum \<Rightarrow> error + timestamp" where
  "normalize hms =
     (case hms of (h, m, s) \<Rightarrow>
        bind (carry m s) (\<lambda>(m, s).
        bind (carry h m) (\<lambda>(h, m).
        Inr (Timestamp h m s))))"

definition parse_time_str :: "string \<Rightarrow> error + timestamp" where
  "parse_time_str t = bind (raw_components t) normalize"

text \<open>
  \<^verbatim>\<open>parse_time\<close>: only the \<^verbatim>\<open>ValueError\<close> of \<^verbatim>\<open>float(t)\<close> is caught, and then \<open>t\<close>
  is still the string it was; any other exception leaves the function.
\<close>

definition parse_time :: "pyval \<Rightarrow> error + timestamp" where
  "parse_time t =
     (case py_float t of
        Inr f \<Rightarrow> minutes_shape f
      | Inl e \<Rightarrow>
          if e = ValueError
          then (case t of VStr u \<Rightarrow> parse_time_str u | _ \<Rightarrow> Inl TypeError)
          else Inl e)"

section \<open>Building the sections: \<^verbatim>\<open>load_config\<close>\<close>

text \<open>
  The model starts from the value that \<^verbatim>\<open>yaml.safe_load\<close> returned.  \<^verbatim>\<open>isinstance\<close> is
  written out for the two tests of the source; \<^verbatim>\<open>bool\<close> is a subclass of \<^verbatim>\<open>int\<close>.
\<close>

fun isinstance_dict :: "pyval \<Rightarrow> bool" where
  "isinstance_dict (VDict d) = True"
| "isinstance_dict v = False"

fun isinstance_float_int :: "pyval \<Rightarrow> bool" where
  "isinstance_float_int (VFloat f) = True"
| "isinstance_float_int (VInt i) = True"
| "isinstance_float_int (VBool b) = True"
| "isinstance_float_int v = False"

fun dict_items :: "pyval \<Rightarrow> (pyval \<times> pyval) list" where
  "dict_items (VDict d) = d"
| "dict_items v = []"

text \<open>
  \<^verbatim>\<open>if key in v: update(parse_time(v[key]))\<close>, applied to the section under
  construction.
\<close>

definition parse_field ::
  "pyval \<Rightarrow> string \<Rightarrow> (timestamp \<Rightarrow> Section \<Rightarrow> Section) \<Rightarrow> Section \<Rightarrow> error + Section" where
  "parse_field v key update section_cfg =
     (case map_of (dict_items v) (VStr key) of
        None \<Rightarrow> Inr section_cfg
      | Some x \<Rightarrow>
          (case parse_time x of
             Inl e \<Rightarrow> Inl e
           | Inr ts \<Rightarrow> Inr (update ts section_cfg)))"

text \<open>
  The body of the loop, lines 118 to 127.  A \<^verbatim>\<open>Section\<close> is a plain dataclass, so the
  item assignment \<^verbatim>\<open>section_cfg['end'] = v\<close> of line 125 raises \<^verbatim>\<open>TypeError\<close>.
\<close>

definition loop_body :: "timestamp \<Rightarrow> pyval \<Rightarrow> pyval \<Rightarrow> error + Section" where
  "loop_body prev_start k v =
     (let section_cfg = \<lparr>name = k, start = prev_start, sec_end = EndInt (- 1)\<rparr>
      in if isinstance_dict v then
           (case parse_field v ''start'' (\<lambda>ts c. c\<lparr>start := ts\<rparr>) section_cfg of
              Inl e \<Rightarrow> Inl e
            | Inr section_cfg \<Rightarrow>
                parse_field v ''end'' (\<lambda>ts c. c\<lparr>sec_end := EndTime ts\<rparr>) section_cfg)
         else if isinstance_float_int v then Inl TypeError
         else Inl InvalidSectionConfig)"

text \<open>
  The loop over \<^verbatim>\<open>cfg.items()\<close>.  \<open>prev_start\<close> is threaded through it as the source
  does; no statement of the loop assigns to it.
\<close>

fun load_loop :: "timestamp \<Rightarrow> (pyval \<times> pyval) list \<Rightarrow> Section list \<Rightarrow> error + Section list" where
  "load_loop prev_start [] sections = Inr sections"
| "load_loop prev_start ((k, v) # items) sections =
     (case loop_body prev_start k v of
        Inl e \<Rightarrow> Inl e
      | Inr section_cfg \<Rightarrow> load_loop prev_start items (sections @ [section_cfg]))"

definition load_config :: "pyval \<Rightarrow> error + Section list" where
  "load_config cfg =
     (if isinstance_dict cfg
      then load_loop (Timestamp (PInt 0) (PInt 0) (PInt 0)) (dict_items cfg) []
      else Inl AttributeError)"

section \<open>The extraction command: \<^verbatim>\<open>extract_section\<close>\<close>

text \<open>
  The function is modelled by the argument list it passes to \<^verbatim>\<open>subprocess.check_call\<close>.
  Of the input path only \<^verbatim>\<open>str(input)\<close> and \<^verbatim>\<open>input.suffix\<close> are used.  The text that
  \<^verbatim>\<open>str\<close> yields for a number and for the output path is not computed: an argument
  records what was rendered.  The duration is asked for before the start offset.
\<close>

record path =
  path_str :: string
  suffix :: string

datatype arg =
    Lit string
  | StrNum pynum
  | StrNone
  | OutFile string pyval string

definition extract_section :: "path \<Rightarrow> string \<Rightarrow> Section \<Rightarrow> error + arg list" where
  "extract_section input out_dir sec =
     bind (if sec_end sec \<noteq> EndNone
           then bind (duration sec) (\<lambda>d.
                  Inr [Lit ''-t'', (case d of None \<Rightarrow> StrNone | Some x \<Rightarrow> StrNum x)])
           else Inr []) (\<lambda>duration_flag.
     bind (start_seconds sec) (\<lambda>s.
     Inr ([Lit ''ffmpeg'', Lit ''-i'', Lit (path_str input), Lit ''-c'', Lit ''copy'',
           Lit ''-ss'', StrNum s]
          @ duration_flag
          @ [OutFile out_dir (name sec) (suffix input)])))"

text \<open>
  Python's \<^verbatim>\<open>==\<close> on two timestamps compares the components as numbers, so that
  \<^verbatim>\<open>Timestamp(0, 1.0, 30.0) == Timestamp(0, 1, 30)\<close>.
\<close>

definition ts_eq :: "timestamp \<Rightarrow> timestamp \<Rightarrow> bool" where
  "ts_eq a b = (py_eq (ts_h a) (ts_h b) \<and> py_eq (ts_m a) (ts_m b) \<and> py_eq (ts_s a) (ts_s b))"

text \<open>The exact value of a number that is not a NaN or an infinity.\<close>

fun val :: "pynum \<Rightarrow> rat option" where
  "val (PInt i) = Some (of_int i)"
| "val (PFloat (Fin r)) = Some r"
| "val (PFloat x) = None"

text \<open>
  A number is the whole number \<open>i\<close> when it is the \<^verbatim>\<open>int\<close> \<open>i\<close> or the \<^verbatim>\<open>float\<close> of that
  value.
\<close>

definition whole :: "pynum \<Rightarrow> int \<Rightarrow> bool" where
  "whole x i = (x = PInt i \<or> x = PFloat (Fin (of_int i)))"

section \<open>Facts about rounding\<close>

lemma bind_Inr [simp]: "bind (Inr a) f = f a"
  by (simp add: bind_def)

lemma bind_Inl [simp]: "bind (Inl e) f = Inl e"
  by (simp add: bind_def)

lemma round_half_even_Ints:
  assumes "y \<in> \<int>"
  shows "of_int (round_half_even y) = y"
proof -
  from assms obtain k where "y = of_int k"
    by (auto elim: Ints_cases)
  then show ?thesis
    by (simp add: round_half_even_def)
qed

lemma round_half_even_ge_floor: "\<lfloor>y\<rfloor> \<le> round_half_even y"
  by (simp add: round_half_even_def Let_def)

text \<open>The exponent of a number that is at least one.\<close>

lemma ilog2_bounds:
  assumes "1 \<le> x"
  shows "0 \<le> ilog2 x" and "2 ^ nat (ilog2 x) \<le> x" and "x < 2 ^ nat (ilog2 x + 1)"
proof -
  have pos: "0 < \<lfloor>x\<rfloor>"
    using assms by simp
  have e: "ilog2 x = bitlen \<lfloor>x\<rfloor> - 1"
    using assms by (simp add: ilog2_def)
  have "bitlen \<lfloor>x\<rfloor> \<noteq> 0"
    using pos by (simp add: bitlen_eq_zero_iff)
  then have b1: "1 \<le> bitlen \<lfloor>x\<rfloor>"
    using bitlen_nonneg [of "\<lfloor>x\<rfloor>"] by linarith
  then show "0 \<le> ilog2 x"
    by (simp add: e)
  have lo: "(2::int) ^ nat (bitlen \<lfloor>x\<rfloor> - 1) \<le> \<lfloor>x\<rfloor>"
    and hi: "\<lfloor>x\<rfloor> < 2 ^ nat (bitlen \<lfloor>x\<rfloor>)"
    using bitlen_bounds [OF pos] by simp_all
  have "rat_of_int (2 ^ nat (bitlen \<lfloor>x\<rfloor> - 1)) \<le> rat_of_int \<lfloor>x\<rfloor>"
    using lo by (simp only: of_int_le_iff)
  also have "\<dots> \<le> x"
    by simp
  finally show "2 ^ nat (ilog2 x) \<le> x"
    by (simp add: e)
  have "\<lfloor>x\<rfloor> + 1 \<le> 2 ^ nat (bitlen \<lfloor>x\<rfloor>)"
    using hi by simp
  then have "rat_of_int (\<lfloor>x\<rfloor> + 1) \<le> rat_of_int (2 ^ nat (bitlen \<lfloor>x\<rfloor>))"
    by (simp only: of_int_le_iff)
  moreover have "x < rat_of_int (\<lfloor>x\<rfloor> + 1)"
    using floor_correct [of x] by simp
  ultimately have "x < rat_of_int (2 ^ nat (bitlen \<lfloor>x\<rfloor>))"
    by linarith
  then show "x < 2 ^ nat (ilog2 x + 1)"
    by (simp add: e)
qed

lemma ilog2_less:
  assumes "1 \<le> x" and "x < 2 ^ n"
  shows "ilog2 x < int n"
proof (rule ccontr)
  assume "\<not> ilog2 x < int n"
  then have "n \<le> nat (ilog2 x)"
    by simp
  then have "(2::rat) ^ n \<le> 2 ^ nat (ilog2 x)"
    by (simp add: power_increasing)
  also have "\<dots> \<le> x"
    using assms(1) by (rule ilog2_bounds)
  finally show False
    using assms(2) by simp
qed

lemma ilog2_ge:
  assumes "2 ^ n \<le> x"
  shows "int n \<le> ilog2 x"
proof (rule ccontr)
  assume "\<not> int n \<le> ilog2 x"
  moreover have "(1::rat) \<le> 2 ^ n"
    by simp
  then have one: "1 \<le> x"
    using assms by linarith
  ultimately have "nat (ilog2 x + 1) \<le> n"
    using ilog2_bounds(1) [OF one] by simp
  then have "(2::rat) ^ nat (ilog2 x + 1) \<le> 2 ^ n"
    by (simp add: power_increasing)
  then show False
    using ilog2_bounds(3) [OF one] assms by linarith
qed

text \<open>A whole number below \<open>2 ^ 53\<close> in magnitude is a float.\<close>

lemma rnd_Ints:
  assumes "x \<in> \<int>" and "\<bar>x\<bar> < 2 ^ 53"
  shows "rnd x = x"
proof (cases "x = 0")
  case True
  then show ?thesis
    by (simp add: rnd_def)
next
  case False
  have "\<bar>x\<bar> \<in> \<int>"
    using assms(1) by simp
  then have one: "1 \<le> \<bar>x\<bar>"
    using False by (auto elim!: Ints_cases)
  define e where "e = ilog2 \<bar>x\<bar>"
  have e0: "0 \<le> e" and e52: "e \<le> 52"
    using ilog2_bounds(1) [OF one] ilog2_less [OF one, of 53] assms(2)
    by (simp_all add: e_def)
  define k where "k = nat (52 - e)"
  have q: "pow2 (max e (- 1022) - 52) = 1 / 2 ^ k"
    using e0 e52 by (auto simp: pow2_def k_def)
  have "x / (1 / 2 ^ k) = x * 2 ^ k"
    by simp
  moreover have "x * 2 ^ k \<in> \<int>"
    using assms(1) by simp
  ultimately have "of_int (round_half_even (x / (1 / 2 ^ k))) = x * 2 ^ k"
    using round_half_even_Ints by metis
  then show ?thesis
    using False by (simp add: rnd_def Let_def e_def [symmetric] q)
qed

lemma round64_Ints:
  assumes "x \<in> \<int>" and "\<bar>x\<bar> < 2 ^ 53"
  shows "round64 x = Fin x"
proof -
  have "(2::rat) ^ 53 \<le> 2 ^ 1024"
    by (rule power_increasing) simp_all
  then have "\<bar>x\<bar> < 2 ^ 1024"
    using assms(2) by linarith
  then have a: "\<not> 2 ^ 1024 \<le> x" and b: "\<not> x \<le> - (2 ^ 1024)"
    by linarith+
  show ?thesis
    by (simp only: round64_def Let_def rnd_Ints [OF assms] a b if_False)
qed

text \<open>A number from \<open>2 ^ 1024\<close> on rounds to infinity.\<close>

lemma round64_overflow:
  assumes "2 ^ 1024 \<le> x"
  shows "round64 x = PosInf"
proof -
  have pos: "0 < x"
    using assms zero_less_power [of "2::rat" 1024] by linarith
  define e where "e = ilog2 x"
  have e_ge: "1024 \<le> e"
    using ilog2_ge [OF assms] by (simp add: e_def)
  have "(1::rat) \<le> 2 ^ 1024"
    by (rule one_le_power) simp
  then have one: "1 \<le> x"
    using assms by linarith
  define k where "k = nat (e - 52)"
  have ek: "nat e = k + 52"
    using e_ge by (simp add: k_def)
  have q: "pow2 (max e (- 1022) - 52) = 2 ^ k"
    using e_ge by (auto simp: pow2_def k_def)
  define r where "r = round_half_even (x / 2 ^ k)"
  have "(2::rat) ^ 52 * 2 ^ k \<le> x"
    using ilog2_bounds(2) [OF one] by (simp add: e_def [symmetric] ek power_add mult.commute)
  then have "(2::rat) ^ 52 \<le> x / 2 ^ k"
    by (simp add: pos_le_divide_eq)
  then have "(2::int) ^ 52 \<le> \<lfloor>x / 2 ^ k\<rfloor>"
    by (simp add: le_floor_iff)
  then have "(2::int) ^ 52 \<le> r"
    using round_half_even_ge_floor [of "x / 2 ^ k"] unfolding r_def by linarith
  then have "rat_of_int (2 ^ 52) \<le> rat_of_int r"
    by (simp only: of_int_le_iff)
  then have A: "(2::rat) ^ 52 * 2 ^ k \<le> rat_of_int r * 2 ^ k"
    by (simp add: mult_right_mono)
  have "(2::rat) ^ 1024 \<le> 2 ^ nat e"
    using e_ge by (intro power_increasing) simp_all
  also have "\<dots> = 2 ^ 52 * 2 ^ k"
    by (simp only: ek power_add mult.commute)
  also note A
  finally have big: "(2::rat) ^ 1024 \<le> rat_of_int r * 2 ^ k" .
  have rx: "rnd x = rat_of_int r * 2 ^ k"
    using pos q by (simp add: rnd_def Let_def e_def [symmetric] r_def)
  show ?thesis
    by (simp only: round64_def Let_def rx big if_True)
qed

lemma float_of_int_exact:
  assumes "\<bar>i\<bar> < 2 ^ 53"
  shows "float_of_int i = Inr (Fin (of_int i))"
proof -
  have "\<bar>rat_of_int i\<bar> < rat_of_int (2 ^ 53)"
    using assms by (simp only: of_int_abs [symmetric] of_int_less_iff)
  then show ?thesis
    by (simp add: float_of_int_def round64_Ints)
qed

lemma float_of_int_overflow:
  assumes "2 ^ 1024 \<le> i"
  shows "float_of_int i = Inl OverflowError"
proof -
  have "rat_of_int (2 ^ 1024) \<le> rat_of_int i"
    using assms by (simp only: of_int_le_iff)
  then show ?thesis
    by (simp add: float_of_int_def round64_overflow)
qed

section \<open>Float arithmetic on whole numbers\<close>

text \<open>
  As long as the whole numbers involved stay below \<open>2 ^ 53\<close>, the float operations of
  the program are exact.
\<close>

lemma fadd_Ints:
  assumes "a \<in> \<int>" and "b \<in> \<int>" and "\<bar>a + b\<bar> < 2 ^ 53"
  shows "fadd (Fin a) (Fin b) = Fin (a + b)"
  using assms by (simp add: round64_Ints)

lemma fsub_Ints:
  assumes "a \<in> \<int>" and "b \<in> \<int>" and "\<bar>a - b\<bar> < 2 ^ 53"
  shows "fsub (Fin a) (Fin b) = Fin (a - b)"
  using assms by (simp add: fsub_def round64_Ints)

lemma fmul_Ints:
  assumes "a \<in> \<int>" and "b \<in> \<int>" and "\<bar>a * b\<bar> < 2 ^ 53"
  shows "fmul (Fin a) (Fin b) = Fin (a * b)"
  using assms by (simp add: round64_Ints)

lemma trunc_divide_of_int:
  assumes "0 \<le> n" and "0 < d"
  shows "trunc (rat_of_int n / rat_of_int d) = n div d"
  using assms by (simp add: trunc_def floor_divide_of_int_eq)

lemma fmod_of_int:
  assumes "0 \<le> n" and "0 < d"
  shows "fmod (Fin (rat_of_int n)) (rat_of_int d) = Fin (rat_of_int (n mod d))"
proof -
  have "n mod d = n - d * (n div d)"
    by (simp add: minus_mult_div_eq_mod)
  then show ?thesis
    using assms by (simp add: trunc_divide_of_int)
qed

lemma round64_zero: "round64 0 = Fin 0"
  using round64_Ints [of 0] by simp

lemma float_rem_of_int:
  assumes "0 \<le> n" and "0 < d"
  shows "float_rem (Fin (rat_of_int n)) (rat_of_int d) = Fin (rat_of_int (n mod d))"
proof -
  have "\<not> n mod d < 0"
    using assms by (simp add: not_less)
  then show ?thesis
    using assms by (simp add: float_rem_def fmod_of_int Let_def del: fmod.simps)
qed

lemma float_floor_div_of_int:
  assumes "0 \<le> n" and "n < 2 ^ 53" and "0 < d"
  shows "float_floor_div (Fin (rat_of_int n)) (rat_of_int d) = Fin (rat_of_int (n div d))"
proof -
  have q0: "0 \<le> n div d"
    using assms by (simp add: pos_imp_zdiv_nonneg_iff)
  have "n div d \<le> n div 1"
    using assms by (intro zdiv_mono2) simp_all
  then have qn: "n div d \<le> n"
    by simp
  have m0: "0 \<le> n mod d"
    using assms by simp
  have mn: "n mod d \<le> n"
    using assms by (simp add: zmod_le_nonneg_dividend)
  have small: "\<bar>rat_of_int i\<bar> < 2 ^ 53" if "0 \<le> i" and "i \<le> n" for i
  proof -
    have "\<bar>i\<bar> < 2 ^ 53"
      using that assms(2) by linarith
    then have "\<bar>rat_of_int i\<bar> < rat_of_int (2 ^ 53)"
      by (simp only: of_int_abs [symmetric] of_int_less_iff)
    then show ?thesis
      by simp
  qed
  have diff: "rat_of_int n - rat_of_int (n mod d) = rat_of_int (d * (n div d))"
    by (simp add: minus_mod_eq_mult_div [symmetric])
  have "d * (n div d) = n - n mod d"
    by (simp add: minus_mod_eq_mult_div)
  then have "0 \<le> d * (n div d)" and "d * (n div d) \<le> n"
    using m0 mn by linarith+
  then have sub: "fsub (Fin (rat_of_int n)) (Fin (rat_of_int (n mod d))) = Fin (rat_of_int (d * (n div d)))"
    using small [of "d * (n div d)"] by (simp add: fsub_def diff round64_Ints del: of_int_mult)
  have quot: "rat_of_int (d * (n div d)) / rat_of_int d = rat_of_int (n div d)"
    using assms(3) by simp
  have dv: "fdiv (Fin (rat_of_int (d * (n div d)))) (rat_of_int d) = Fin (rat_of_int (n div d))"
    using small [OF q0 qn] by (simp add: quot round64_Ints del: of_int_mult)
  have zero: "fsub (Fin (rat_of_int (n div d))) (Fin (rat_of_int (n div d))) = Fin 0"
    by (simp add: fsub_def round64_zero)
  show ?thesis
    using m0
    by (simp add: float_floor_div_def fmod_of_int [OF assms(1,3)] sub dv zero Let_def
        del: fmod.simps fdiv.simps of_int_mult)
qed

text \<open>The same facts in the form in which numerals meet them.\<close>

lemma float_rem_Ints:
  assumes "x \<in> \<int>" and "0 \<le> x" and "w \<in> \<int>" and "0 < w"
  shows "float_rem (Fin x) w = Fin (rat_of_int (\<lfloor>x\<rfloor> mod \<lfloor>w\<rfloor>))"
proof -
  from assms obtain n d where "x = rat_of_int n" and "w = rat_of_int d"
    by (auto elim!: Ints_cases)
  then show ?thesis
    using assms float_rem_of_int [of n d] by simp
qed

lemma float_floor_div_Ints:
  assumes "x \<in> \<int>" and "0 \<le> x" and "x < 2 ^ 53" and "w \<in> \<int>" and "0 < w"
  shows "float_floor_div (Fin x) w = Fin (rat_of_int (\<lfloor>x\<rfloor> div \<lfloor>w\<rfloor>))"
proof -
  from assms obtain n d where x: "x = rat_of_int n" and w: "w = rat_of_int d"
    by (auto elim!: Ints_cases)
  have "rat_of_int n < rat_of_int (2 ^ 53)"
    using assms(3) by (simp add: x)
  then have "n < 2 ^ 53"
    by (simp only: of_int_less_iff)
  then show ?thesis
    using assms float_floor_div_of_int [of n d] by (simp add: x w)
qed

lemma float_of_int_numeral:
  assumes "(numeral k :: int) < 2 ^ 53"
  shows "float_of_int (numeral k) = Inr (Fin (numeral k))"
  using assms float_of_int_exact [of "numeral k"] by simp

lemma float_of_int_zero: "float_of_int 0 = Inr (Fin 0)"
  using float_of_int_exact [of 0] by simp

lemma float_of_int_one: "float_of_int 1 = Inr (Fin 1)"
  using float_of_int_exact [of 1] by simp

text \<open>The rules by which a computation on small whole numbers is carried out.\<close>

lemmas float_eval =
  round64_Ints round64_zero float_floor_div_Ints float_rem_Ints trunc_def float_op_def
  float_of_int_numeral float_of_int_zero float_of_int_one fsub_def

section \<open>Which exceptions can arise\<close>

lemma bind_eq_Inl:
  "bind x f = Inl e \<Longrightarrow> x = Inl e \<or> (\<exists>a. x = Inr a \<and> f a = Inl e)"
  by (cases x) simp_all

lemma float_of_int_error: "float_of_int i = Inl e \<Longrightarrow> e = OverflowError"
  by (auto simp: float_of_int_def split: pyfloat.splits)

lemma to_float_error: "to_float x = Inl e \<Longrightarrow> e = OverflowError"
  by (cases x) (auto dest: float_of_int_error)

lemma float_op_error: "float_op f x y = Inl e \<Longrightarrow> e = OverflowError"
  by (auto simp: float_op_def dest!: bind_eq_Inl dest: to_float_error)

lemma py_add_error: "py_add x y = Inl e \<Longrightarrow> e = OverflowError"
  by (cases x; cases y) (auto dest: float_op_error)

lemma py_sub_error: "py_sub x y = Inl e \<Longrightarrow> e = OverflowError"
  by (cases x; cases y) (auto dest: float_op_error)

lemma py_mul_error: "py_mul x y = Inl e \<Longrightarrow> e = OverflowError"
  by (cases x; cases y) (auto dest: float_op_error)

lemma py_int_error: "py_int x = Inl e \<Longrightarrow> e = ValueError \<or> e = OverflowError"
  by (cases x rule: py_int.cases) auto

lemma total_seconds_error: "total_seconds t = Inl e \<Longrightarrow> e = OverflowError"
  by (auto simp: total_seconds_def dest!: bind_eq_Inl dest: py_add_error py_mul_error)

lemma duration_error:
  assumes "duration (sec\<lparr>sec_end := EndTime t\<rparr>) = Inl e"
  shows "e = OverflowError"
  using assms
  by (auto simp: duration_def start_seconds_def dest!: bind_eq_Inl
      dest: total_seconds_error py_sub_error)

lemma minutes_shape_error:
  "minutes_shape f = Inl e \<Longrightarrow> e = ValueError \<or> e = OverflowError"
  by (auto simp: minutes_shape_def dest!: bind_eq_Inl dest: py_int_error float_op_error)

lemma int_of_group_error: "int_of_group ds = Inl e \<Longrightarrow> e = ValueError"
  by (auto simp: int_of_group_def int_of_digits_def dest!: bind_eq_Inl split: if_splits)

lemma float_of_group_error: "float_of_group ds = Inl e \<Longrightarrow> e = ValueError"
  by (auto simp: float_of_group_def split: option.splits)

lemma int_group_error: "int_group g = Inl e \<Longrightarrow> e = ValueError"
  by (auto simp: int_group_def dest: int_of_group_error split: option.splits)

lemma float_group_error: "float_group g = Inl e \<Longrightarrow> e = ValueError"
  by (auto simp: float_group_def dest: float_of_group_error split: option.splits)

lemma match_letter_re_matches: "match_letter_re t \<noteq> None"
  by (simp add: match_letter_re_def split: prod.split)

lemma raw_components_error: "raw_components t = Inl e \<Longrightarrow> e = ValueError"
  using match_letter_re_matches [of t]
  by (auto simp: raw_components_def dest!: bind_eq_Inl
      dest: int_group_error int_of_group_error float_of_group_error float_group_error
      split: option.splits prod.splits)

lemma carry_error: "carry hi lo = Inl e \<Longrightarrow> e = OverflowError"
  by (auto simp: carry_def dest!: bind_eq_Inl dest: py_add_error split: if_splits)

lemma normalize_error: "normalize hms = Inl e \<Longrightarrow> e = OverflowError"
  by (auto simp: normalize_def dest!: bind_eq_Inl dest: carry_error split: prod.splits)

lemma parse_time_str_error:
  "parse_time_str t = Inl e \<Longrightarrow> e = ValueError \<or> e = OverflowError"
  by (auto simp: parse_time_str_def dest!: bind_eq_Inl dest: raw_components_error normalize_error)

lemma py_float_error:
  "py_float t = Inl e \<Longrightarrow> e = ValueError \<or> e = OverflowError \<or> e = TypeError"
  by (cases t) (auto dest: float_of_int_error split: option.splits)

lemma parse_time_of_number:
  "py_float t = Inr f \<Longrightarrow> parse_time t = minutes_shape f"
  by (simp add: parse_time_def)

lemma parse_time_of_string:
  "float_of_string t = None \<Longrightarrow> parse_time (VStr t) = parse_time_str t"
  by (simp add: parse_time_def)

lemma parse_time_not_invalid_format: "parse_time t \<noteq> Inl InvalidTimeFormat"
proof (cases "py_float t")
  case (Inr f)
  then show ?thesis
    using minutes_shape_error [of f InvalidTimeFormat] by (auto simp: parse_time_of_number)
next
  case (Inl e)
  show ?thesis
  proof (cases t)
    case (VStr u)
    show ?thesis
      using Inl VStr py_float_error [of t e] parse_time_str_error [of u InvalidTimeFormat]
      by (auto simp: parse_time_def)
  qed (use Inl py_float_error [of t e] in \<open>auto simp: parse_time_def\<close>)
qed

section \<open>Arithmetic on whole numbers is exact\<close>

lemma to_float_whole:
  assumes "whole x i" and "\<bar>i\<bar> < 2 ^ 53"
  shows "to_float x = Inr (Fin (rat_of_int i))"
  using assms by (auto simp: whole_def float_of_int_exact)

lemma small_rat:
  assumes "\<bar>i\<bar> < (2::int) ^ 53"
  shows "\<bar>rat_of_int i\<bar> < 2 ^ 53"
proof -
  have "\<bar>rat_of_int i\<bar> < rat_of_int (2 ^ 53)"
    using assms by (simp only: of_int_abs [symmetric] of_int_less_iff)
  then show ?thesis
    by simp
qed

lemma whole_add:
  assumes "whole x i" and "whole y j"
    and "\<bar>i\<bar> < 2 ^ 53" and "\<bar>j\<bar> < 2 ^ 53" and "\<bar>i + j\<bar> < 2 ^ 53"
  shows "\<exists>z. py_add x y = Inr z \<and> whole z (i + j)"
proof (cases "\<exists>a b. x = PInt a \<and> y = PInt b")
  case True
  then show ?thesis
    using assms(1,2) by (auto simp: whole_def)
next
  case False
  then have "py_add x y = float_op fadd x y"
    by (cases x; cases y) simp_all
  moreover have "fadd (Fin (rat_of_int i)) (Fin (rat_of_int j)) = Fin (rat_of_int (i + j))"
    using small_rat [OF assms(5)] by (simp add: round64_Ints del: fadd.simps add: fadd_Ints)
  ultimately show ?thesis
    using to_float_whole [OF assms(1,3)] to_float_whole [OF assms(2,4)]
    by (simp add: float_op_def whole_def del: fadd.simps of_int_add)
qed

lemma whole_sub:
  assumes "whole x i" and "whole y j"
    and "\<bar>i\<bar> < 2 ^ 53" and "\<bar>j\<bar> < 2 ^ 53" and "\<bar>i - j\<bar> < 2 ^ 53"
  shows "\<exists>z. py_sub x y = Inr z \<and> whole z (i - j)"
proof (cases "\<exists>a b. x = PInt a \<and> y = PInt b")
  case True
  then show ?thesis
    using assms(1,2) by (auto simp: whole_def)
next
  case False
  then have "py_sub x y = float_op fsub x y"
    by (cases x; cases y) simp_all
  moreover have "fsub (Fin (rat_of_int i)) (Fin (rat_of_int j)) = Fin (rat_of_int (i - j))"
    using small_rat [OF assms(5)] by (simp add: fsub_Ints)
  ultimately show ?thesis
    using to_float_whole [OF assms(1,3)] to_float_whole [OF assms(2,4)]
    by (simp add: float_op_def whole_def del: of_int_diff)
qed

lemma whole_mul:
  assumes "whole x i" and "whole y j"
    and "\<bar>i\<bar> < 2 ^ 53" and "\<bar>j\<bar> < 2 ^ 53" and "\<bar>i * j\<bar> < 2 ^ 53"
  shows "\<exists>z. py_mul x y = Inr z \<and> whole z (i * j)"
proof (cases "\<exists>a b. x = PInt a \<and> y = PInt b")
  case True
  then show ?thesis
    using assms(1,2) by (auto simp: whole_def)
next
  case False
  then have "py_mul x y = float_op fmul x y"
    by (cases x; cases y) simp_all
  moreover have "fmul (Fin (rat_of_int i)) (Fin (rat_of_int j)) = Fin (rat_of_int (i * j))"
    using small_rat [OF assms(5)] by (simp add: fmul_Ints del: fmul.simps)
  ultimately show ?thesis
    using to_float_whole [OF assms(1,3)] to_float_whole [OF assms(2,4)]
    by (simp add: float_op_def whole_def del: fmul.simps of_int_mult)
qed

lemma whole_floordiv:
  assumes "whole x i" and "0 \<le> i" and "i < 2 ^ 53"
  shows "whole (py_floordiv x 60) (i div 60)"
  using assms float_floor_div_of_int [of i 60]
  by (auto simp: whole_def)

lemma whole_mod:
  assumes "whole x i" and "0 \<le> i"
  shows "whole (py_mod x 60) (i mod 60)"
  using assms float_rem_of_int [of i 60]
  by (auto simp: whole_def)

lemma whole_ge:
  assumes "whole x i"
  shows "py_ge x k = (k \<le> i)"
  using assms by (auto simp: whole_def)

lemma whole_val:
  assumes "whole x i"
  shows "val x = Some (rat_of_int i)"
  using assms by (auto simp: whole_def)

text \<open>One carry step on whole numbers.\<close>

lemma carry_whole:
  assumes "whole hi a" and "whole lo b"
    and "0 \<le> a" and "a < 2 ^ 53" and "0 \<le> b" and "b < 2 ^ 53" and "a + b div 60 < 2 ^ 53"
  shows "\<exists>hi' lo'. carry hi lo = Inr (hi', lo')
           \<and> whole hi' (a + b div 60) \<and> whole lo' (b mod 60)"
proof (cases "60 \<le> b")
  case True
  have q0: "0 \<le> b div 60"
    using assms(5) by simp
  have "b div 60 \<le> b"
    using assms(5) by (simp add: div_le_dividend zdiv_mono2 [of b 1 60, simplified])
  then have small: "\<bar>b div 60\<bar> < 2 ^ 53"
    using q0 assms(6) by linarith
  obtain z where "py_add hi (py_floordiv lo 60) = Inr z" and "whole z (a + b div 60)"
    using whole_add [OF assms(1) whole_floordiv [OF assms(2,5,6)], of] assms(3,4,7) q0 small
    by auto
  then show ?thesis
    using True whole_ge [OF assms(2), of 60] whole_mod [OF assms(2,5)]
    by (simp add: carry_def)
next
  case False
  then have "b div 60 = 0" and "b mod 60 = b"
    using assms(5) by simp_all
  then show ?thesis
    using False whole_ge [OF assms(2), of 60] assms(1,2)
    by (simp add: carry_def)
qed

text \<open>Both carry steps: the components of the result, as whole numbers.\<close>

lemma normalize_whole:
  assumes "whole h0 H" and "whole m0 M" and "whole s0 S"
    and "0 \<le> H" and "H < 2 ^ 52" and "0 \<le> M" and "M < 2 ^ 52" and "0 \<le> S" and "S < 2 ^ 52"
  shows "\<exists>h' m' s'. normalize (h0, m0, s0) = Inr (Timestamp h' m' s')
           \<and> whole h' (H + (M + S div 60) div 60)
           \<and> whole m' ((M + S div 60) mod 60)
           \<and> whole s' (S mod 60)"
proof -
  have sd: "0 \<le> S div 60" and "S div 60 \<le> S"
    using assms(8) by (simp_all add: zdiv_mono2 [of S 1 60, simplified])
  then have m1: "0 \<le> M + S div 60" and m1': "M + S div 60 < 2 ^ 53"
    using assms(6,7,9) by simp_all
  obtain m1 s1 where c1: "carry m0 s0 = Inr (m1, s1)"
    and wm1: "whole m1 (M + S div 60)" and ws1: "whole s1 (S mod 60)"
    using carry_whole [OF assms(2,3), of] assms(6,7,8,9) m1' by auto
  have "60 * ((M + S div 60) div 60) = (M + S div 60) - (M + S div 60) mod 60"
    by (simp add: minus_mod_eq_mult_div)
  moreover have "0 \<le> (M + S div 60) mod 60"
    by simp
  ultimately have h1: "H + (M + S div 60) div 60 < 2 ^ 53"
    using assms(5) m1' by simp
  obtain h2 m2 where c2: "carry h0 m1 = Inr (h2, m2)"
    and wh2: "whole h2 (H + (M + S div 60) div 60)"
    and wm2: "whole m2 ((M + S div 60) mod 60)"
    using carry_whole [OF assms(1) wm1, of] assms(4,5) m1 m1' h1 by auto
  show ?thesis
    using c1 c2 wh2 wm2 ws1 by (simp add: normalize_def)
qed

section \<open>How \<^verbatim>\<open>parse_time\<close> runs on a given input\<close>

lemma not_a_number:
  assumes "parse_literal t = None"
  shows "float_of_string t = None"
  using assms by (simp add: float_of_string_def)

lemma int_group_None: "int_group None = Inr (PInt 0)"
  by (simp add: int_group_def)

lemma float_group_None: "float_group None = Inr (PInt 0)"
  by (simp add: float_group_def)

lemma normalize_zero:
  "normalize (PInt 0, PInt 0, PInt 0) = Inr (Timestamp (PInt 0) (PInt 0) (PInt 0))"
  by (simp add: normalize_def carry_def)

text \<open>The minutes shape on a whole number of minutes.\<close>

lemma minutes_shape_whole:
  assumes "0 \<le> n" and "n < 2 ^ 53"
  shows "minutes_shape (Fin (rat_of_int n)) =
           Inr (Timestamp (PInt (n div 60)) (PInt (n mod 60)) (PFloat (Fin 0)))"
  using assms float_floor_div_of_int [of n 60] float_rem_of_int [of n 60]
    float_rem_of_int [of n 1]
  by (simp add: minutes_shape_def trunc_def float_op_def float_of_int_numeral round64_zero)

text \<open>The strings that the results below evaluate.\<close>

lemma empty_prefix_strings:
  "parse_literal ''not a time'' = None" "parse_literal '''' = None"
  "parse_literal ''02:03'' = None" "parse_literal ''3.5s'' = None"
  "match_colon_re ''not a time'' = None" "match_colon_re '''' = None"
  "match_colon_re ''02:03'' = None" "match_colon_re ''3.5s'' = None"
  "match_colon_re ''90'' = None"
  "match_letter_re ''not a time'' = Some (None, None, None)"
  "match_letter_re '''' = Some (None, None, None)"
  "match_letter_re ''02:03'' = Some (None, None, None)"
  "match_letter_re ''3.5s'' = Some (None, None, None)"
  "match_letter_re ''90'' = Some (None, None, None)"
  by code_simp+

lemma zero_of_empty_prefix:
  assumes "match_colon_re t = None" and "match_letter_re t = Some (None, None, None)"
  shows "parse_time_str t = Inr (Timestamp (PInt 0) (PInt 0) (PInt 0))"
  using assms
  by (simp add: parse_time_str_def raw_components_def int_group_None float_group_None
      normalize_zero)

lemma digit_groups:
  "int_of_digits ''1'' = Inr 1" "int_of_digits ''2'' = Inr 2"
  "int_of_digits ''00'' = Inr 0" "int_of_digits ''02'' = Inr 2"
  "int_of_digits ''75'' = Inr 75"
  "parse_literal ''00'' = Some (LitNum 0)" "parse_literal ''03'' = Some (LitNum 3)"
  "parse_literal ''90'' = Some (LitNum 90)" "parse_literal ''75.0'' = Some (LitNum 75)"
  by code_simp+

lemma colon_strings:
  "parse_literal ''1:00:00'' = None" "parse_literal ''2:00:00'' = None"
  "parse_literal ''1:02:03'' = None" "parse_literal '':02:03'' = None"
  "parse_literal ''1:02:03.5'' = None"
  "match_colon_re ''1:00:00'' = Some (Some ''1'', ''00'', ''00'')"
  "match_colon_re ''2:00:00'' = Some (Some ''2'', ''00'', ''00'')"
  "match_colon_re ''1:02:03'' = Some (Some ''1'', ''02'', ''03'')"
  "match_colon_re '':02:03'' = Some (None, ''02'', ''03'')"
  "match_colon_re ''1:02:03.5'' = Some (Some ''1'', ''02'', ''03'')"
  by code_simp+

lemma letter_strings:
  "parse_literal ''90s'' = None" "parse_literal ''1h, 75m 90s'' = None"
  "match_colon_re ''90s'' = None" "match_colon_re ''1h, 75m 90s'' = None"
  "match_letter_re ''90s'' = Some (None, None, Some ''90'')"
  "match_letter_re ''1h, 75m 90s'' = Some (Some ''1'', Some ''75'', Some ''90'')"
  by code_simp+

lemma parse_time_colon_values:
  "parse_time (VStr ''1:00:00'') = Inr (Timestamp (PInt 1) (PInt 0) (PFloat (Fin 0)))"
  "parse_time (VStr ''2:00:00'') = Inr (Timestamp (PInt 2) (PInt 0) (PFloat (Fin 0)))"
  "parse_time (VStr ''1:02:03'') = Inr (Timestamp (PInt 1) (PInt 2) (PFloat (Fin 3)))"
  "parse_time (VStr '':02:03'') = Inr (Timestamp (PInt 0) (PInt 2) (PFloat (Fin 3)))"
  "parse_time (VStr ''1:02:03.5'') = Inr (Timestamp (PInt 1) (PInt 2) (PFloat (Fin 3)))"
  by (simp_all add: parse_time_of_string not_a_number parse_time_str_def raw_components_def
      colon_strings digit_groups int_group_def int_of_group_def float_of_group_def
      float_of_string_def normalize_def carry_def float_eval)

lemma raw_letter_values:
  "raw_components ''90s'' = Inr (PInt 0, PInt 0, PFloat (Fin 90))"
  "raw_components ''1h, 75m 90s'' = Inr (PInt 1, PInt 75, PFloat (Fin 90))"
  by (simp_all add: raw_components_def letter_strings digit_groups int_group_def
      int_of_group_def float_group_def float_of_group_def float_of_string_def float_eval)

lemma parse_time_letter_values:
  "parse_time (VStr ''90s'') = Inr (Timestamp (PInt 0) (PFloat (Fin 1)) (PFloat (Fin 30)))"
  "parse_time (VStr ''1h, 75m 90s'') =
     Inr (Timestamp (PFloat (Fin 2)) (PFloat (Fin 16)) (PFloat (Fin 30)))"
  by (simp_all add: parse_time_of_string not_a_number parse_time_str_def letter_strings
      raw_letter_values normalize_def carry_def float_eval)

lemma parse_time_number_values:
  "py_float (VStr ''90'') = Inr (Fin 90)"
  "py_float (VStr ''75.0'') = Inr (Fin 75)"
  "minutes_shape (Fin 90) = Inr (Timestamp (PInt 1) (PInt 30) (PFloat (Fin 0)))"
  "minutes_shape (Fin 75) = Inr (Timestamp (PInt 1) (PInt 15) (PFloat (Fin 0)))"
  "minutes_shape (Fin 5) = Inr (Timestamp (PInt 0) (PInt 5) (PFloat (Fin 0)))"
  by (simp_all add: float_of_string_def digit_groups minutes_shape_def float_eval)

section \<open>Results on \<^verbatim>\<open>parse_time\<close>\<close>

text \<open>
  Claim C7 (numeric-coercion precedence).  Whenever \<^verbatim>\<open>float(t)\<close> succeeds, \<^verbatim>\<open>parse_time\<close>
  returns what the minutes shape returns on that float, which is also what it returns
  when given the float itself; and unless \<^verbatim>\<open>float(t)\<close> fails with the \<^verbatim>\<open>ValueError\<close>
  that sends a string on to the patterns, the outcome is that of the coercion followed
  by the minutes shape, so the colon and letter patterns play no part.  A whole number
  \<open>n\<close> of minutes with \<open>0 \<le> n < 2 ^ 53\<close>, given as an \<^verbatim>\<open>int\<close> or as a \<^verbatim>\<open>float\<close>, yields
  \<open>n div 60\<close> hours, \<open>n mod 60\<close> minutes and \<open>0.0\<close> seconds.  In particular
  \<^verbatim>\<open>parse_time("90")\<close> and \<^verbatim>\<open>parse_time(90.0)\<close> are both \<^verbatim>\<open>Timestamp(1, 30, 0.0)\<close>, which
  Python's \<^verbatim>\<open>==\<close> identifies with \<^verbatim>\<open>Timestamp(1, 30, 0)\<close>, whereas the string patterns
  alone would have read \<^verbatim>\<open>"90"\<close> as zero.
\<close>

theorem parse_time_number_is_minutes:
  "(py_float t = Inr f \<longrightarrow>
      parse_time t = minutes_shape f \<and> parse_time t = parse_time (VFloat f))
   \<and> (py_float t \<noteq> Inl ValueError \<longrightarrow> parse_time t = bind (py_float t) minutes_shape)
   \<and> (0 \<le> n \<and> n < 2 ^ 53 \<longrightarrow>
      parse_time (VInt n) =
        Inr (Timestamp (PInt (n div 60)) (PInt (n mod 60)) (PFloat (Fin 0)))
      \<and> parse_time (VFloat (Fin (of_int n))) = parse_time (VInt n))
   \<and> parse_time (VStr ''90'') = parse_time (VFloat (Fin 90))
   \<and> parse_time (VFloat (Fin 90)) = Inr (Timestamp (PInt 1) (PInt 30) (PFloat (Fin 0)))
   \<and> ts_eq (Timestamp (PInt 1) (PInt 30) (PFloat (Fin 0))) (Timestamp (PInt 1) (PInt 30) (PInt 0))
   \<and> parse_time_str ''90'' = Inr (Timestamp (PInt 0) (PInt 0) (PInt 0))"
proof -
  have gen: "py_float t = Inr f \<longrightarrow>
      parse_time t = minutes_shape f \<and> parse_time t = parse_time (VFloat f)"
    by (simp add: parse_time_def)
  have prec: "py_float t \<noteq> Inl ValueError \<longrightarrow> parse_time t = bind (py_float t) minutes_shape"
    by (cases "py_float t") (simp_all add: parse_time_def)
  have whole: "0 \<le> n \<and> n < 2 ^ 53 \<longrightarrow>
      parse_time (VInt n) =
        Inr (Timestamp (PInt (n div 60)) (PInt (n mod 60)) (PFloat (Fin 0)))
      \<and> parse_time (VFloat (Fin (of_int n))) = parse_time (VInt n)"
  proof
    assume n: "0 \<le> n \<and> n < 2 ^ 53"
    then have "\<bar>n\<bar> < 2 ^ 53"
      by linarith
    then have "py_float (VInt n) = Inr (Fin (rat_of_int n))"
      by (simp add: float_of_int_exact)
    then show "parse_time (VInt n) =
        Inr (Timestamp (PInt (n div 60)) (PInt (n mod 60)) (PFloat (Fin 0)))
      \<and> parse_time (VFloat (Fin (of_int n))) = parse_time (VInt n)"
      using n by (simp add: parse_time_def minutes_shape_whole)
  qed
  have "parse_time (VStr ''90'') = minutes_shape (Fin 90)"
    by (rule parse_time_of_number) (rule parse_time_number_values)
  then have str: "parse_time (VStr ''90'') = parse_time (VFloat (Fin 90))"
    by (simp add: parse_time_def)
  have num: "parse_time (VFloat (Fin 90)) = Inr (Timestamp (PInt 1) (PInt 30) (PFloat (Fin 0)))"
    by (simp add: parse_time_def parse_time_number_values)
  have eq: "ts_eq (Timestamp (PInt 1) (PInt 30) (PFloat (Fin 0))) (Timestamp (PInt 1) (PInt 30) (PInt 0))"
    by (simp add: ts_eq_def)
  have pat: "parse_time_str ''90'' = Inr (Timestamp (PInt 0) (PInt 0) (PInt 0))"
    by (simp add: zero_of_empty_prefix empty_prefix_strings)
  from gen prec whole str num eq pat show ?thesis
    by blast
qed

theorem parse_time_number_is_minutes_witness:
  "py_float (VStr ''75.0'') = Inr (Fin 75)
   \<and> parse_time (VStr ''75.0'') = minutes_shape (Fin 75)
   \<and> parse_time (VStr ''75.0'') = bind (py_float (VStr ''75.0'')) minutes_shape
   \<and> (0::int) \<le> 75 \<and> (75::int) < 2 ^ 53
   \<and> parse_time (VInt 75) = Inr (Timestamp (PInt 1) (PInt 15) (PFloat (Fin 0)))
   \<and> parse_time (VFloat (Fin 75)) = parse_time (VInt 75)"
proof -
  have coerced: "py_float (VStr ''75.0'') = Inr (Fin 75)"
    by (rule parse_time_number_values)
  from parse_time_number_is_minutes [of "VStr ''75.0''" "Fin 75" 75] coerced
  show ?thesis
    by simp
qed

text \<open>
  Claim C8 (carry normalization).  As stated the claim fails: the seconds are converted
  with \<^verbatim>\<open>float\<close>, which turns a string of 310 nines into an infinity, and the carry then
  computes \<^verbatim>\<open>inf // 60\<close> and \<^verbatim>\<open>inf % 60\<close>, both NaN.  For \<^verbatim>\<open>"1:02:" + "9" * 310\<close> the raw
  seconds are infinite, so \<open>s \<ge> 60\<close>, and the result is \<^verbatim>\<open>Timestamp(1, nan, nan)\<close>, whose
  minutes and seconds are not in \<open>[0, 60)\<close>.  With 400 nines as minutes the carry adds a
  float to an \<^verbatim>\<open>int\<close> that has no float, and \<^verbatim>\<open>OverflowError\<close> is raised.
\<close>

theorem parse_time_carry_overflow:
  "float_of_string (''1:02:'' @ replicate 310 CHR ''9'') = None
   \<and> raw_components (''1:02:'' @ replicate 310 CHR ''9'') = Inr (PInt 1, PInt 2, PFloat PosInf)
   \<and> py_ge (PFloat PosInf) 60
   \<and> parse_time (VStr (''1:02:'' @ replicate 310 CHR ''9''))
       = Inr (Timestamp (PInt 1) (PFloat NaN) (PFloat NaN))
   \<and> \<not> py_ge (PFloat NaN) 0
   \<and> val (PFloat NaN) = None
   \<and> parse_time (VStr (''0:'' @ replicate 400 CHR ''9'' @ '':60'')) = Inl OverflowError"
proof -
  have lit: "parse_literal (''1:02:'' @ replicate 310 CHR ''9'') = None"
    by code_simp
  have re: "match_colon_re (''1:02:'' @ replicate 310 CHR ''9'')
      = Some (Some ''1'', ''02'', replicate 310 CHR ''9'')"
    by code_simp
  have nines: "parse_literal (replicate 310 CHR ''9'') = Some (LitNum (10 ^ 310 - 1))"
    by code_simp
  have "(2::rat) ^ 1024 \<le> 10 ^ 310 - 1"
    by simp
  then have inf: "round64 (10 ^ 310 - 1) = PosInf"
    by (rule round64_overflow)
  have raw: "raw_components (''1:02:'' @ replicate 310 CHR ''9'') = Inr (PInt 1, PInt 2, PFloat PosInf)"
    using re nines inf
    by (simp add: raw_components_def int_group_def int_of_group_def float_of_group_def
        float_of_string_def digit_groups)
  have norm: "normalize (PInt 1, PInt 2, PFloat PosInf)
      = Inr (Timestamp (PInt 1) (PFloat NaN) (PFloat NaN))"
    by (simp add: normalize_def carry_def float_floor_div_def float_rem_def fsub_def
        float_op_def float_of_int_numeral)
  have a: "float_of_string (''1:02:'' @ replicate 310 CHR ''9'') = None"
    using lit by (rule not_a_number)
  have b: "parse_time (VStr (''1:02:'' @ replicate 310 CHR ''9''))
       = Inr (Timestamp (PInt 1) (PFloat NaN) (PFloat NaN))"
    using a raw norm by (simp add: parse_time_of_string parse_time_str_def)
  have lit': "parse_literal (''0:'' @ replicate 400 CHR ''9'' @ '':60'') = None"
    by code_simp
  have re': "match_colon_re (''0:'' @ replicate 400 CHR ''9'' @ '':60'')
      = Some (Some ''0'', replicate 400 CHR ''9'', ''60'')"
    by code_simp
  have groups: "int_of_digits ''0'' = Inr 0"
    "int_of_digits (replicate 400 CHR ''9'') = Inr (10 ^ 400 - 1)"
    "parse_literal ''60'' = Some (LitNum 60)"
    by code_simp+
  have "(2::int) ^ 1024 \<le> 10 ^ 400 - 1"
    by simp
  then have over: "float_of_int (10 ^ 400 - 1) = Inl OverflowError"
    by (rule float_of_int_overflow)
  have raw': "raw_components (''0:'' @ replicate 400 CHR ''9'' @ '':60'')
      = Inr (PInt 0, PInt (10 ^ 400 - 1), PFloat (Fin 60))"
    using re' groups
    by (simp add: raw_components_def int_group_def int_of_group_def float_of_group_def
        float_of_string_def float_eval)
  have norm': "normalize (PInt 0, PInt (10 ^ 400 - 1), PFloat (Fin 60)) = Inl OverflowError"
    using over by (simp add: normalize_def carry_def float_op_def)
  have c: "parse_time (VStr (''0:'' @ replicate 400 CHR ''9'' @ '':60'')) = Inl OverflowError"
    using lit' raw' norm'
    by (simp add: parse_time_of_string not_a_number parse_time_str_def)
  from a raw b c show ?thesis
    by simp
qed

text \<open>
  Claim C8, amended.  Let \<open>t\<close> be a string that is not a number, and let the raw
  components read from it be the whole numbers \<open>H\<close>, \<open>M\<close> and \<open>S\<close>, each from \<open>0\<close> up to
  (not including) \<open>2 ^ 52\<close>.  Then \<^verbatim>\<open>parse_time\<close> returns a timestamp of finite numbers
  whose minutes and seconds lie in \<open>[0, 60)\<close> and whose total of seconds is exactly
  \<open>H * 3600 + M * 60 + S\<close>; this holds whether or not a carry takes place, so in
  particular when \<open>S \<ge> 60\<close> or \<open>M \<ge> 60\<close>.  For example \<^verbatim>\<open>parse_time("90s")\<close> is
  \<^verbatim>\<open>Timestamp(0, 1.0, 30.0)\<close>, equal to \<^verbatim>\<open>Timestamp(0, 1, 30)\<close>.
\<close>

theorem parse_time_carry_normalization:
  "(float_of_string t = None \<and> raw_components t = Inr (h0, m0, s0)
      \<and> whole h0 H \<and> whole m0 M \<and> whole s0 S
      \<and> 0 \<le> H \<and> H < 2 ^ 52 \<and> 0 \<le> M \<and> M < 2 ^ 52 \<and> 0 \<le> S \<and> S < 2 ^ 52 \<longrightarrow>
      (\<exists>ts hv mv sv. parse_time (VStr t) = Inr ts
         \<and> val (ts_h ts) = Some hv \<and> val (ts_m ts) = Some mv \<and> val (ts_s ts) = Some sv
         \<and> 0 \<le> mv \<and> mv < 60 \<and> 0 \<le> sv \<and> sv < 60
         \<and> hv * 3600 + mv * 60 + sv = of_int (H * 3600 + M * 60 + S)))
   \<and> parse_time (VStr ''90s'') = Inr (Timestamp (PInt 0) (PFloat (Fin 1)) (PFloat (Fin 30)))
   \<and> ts_eq (Timestamp (PInt 0) (PFloat (Fin 1)) (PFloat (Fin 30)))
        (Timestamp (PInt 0) (PInt 1) (PInt 30))"
proof -
  have gen: "\<exists>ts hv mv sv. parse_time (VStr t) = Inr ts
         \<and> val (ts_h ts) = Some hv \<and> val (ts_m ts) = Some mv \<and> val (ts_s ts) = Some sv
         \<and> 0 \<le> mv \<and> mv < 60 \<and> 0 \<le> sv \<and> sv < 60
         \<and> hv * 3600 + mv * 60 + sv = of_int (H * 3600 + M * 60 + S)"
    if nan: "float_of_string t = None" and raw: "raw_components t = Inr (h0, m0, s0)"
      and w: "whole h0 H" "whole m0 M" "whole s0 S"
      and b: "0 \<le> H" "H < 2 ^ 52" "0 \<le> M" "M < 2 ^ 52" "0 \<le> S" "S < 2 ^ 52"
  proof -
    define X where "X = M + S div 60"
    obtain h' m' s' where n: "normalize (h0, m0, s0) = Inr (Timestamp h' m' s')"
      and wh: "whole h' (H + X div 60)" and wm: "whole m' (X mod 60)"
      and ws: "whole s' (S mod 60)"
      using normalize_whole [OF w b] unfolding X_def by blast
    have p: "parse_time (VStr t) = Inr (Timestamp h' m' s')"
      using nan raw n by (simp add: parse_time_of_string parse_time_str_def)
    define q1 r1 q2 r2 where "q1 = X div 60" and "r1 = X mod 60"
      and "q2 = S div 60" and "r2 = S mod 60"
    have "60 * q1 + r1 = X" and "60 * q2 + r2 = S" and "X = M + q2"
      by (simp_all add: q1_def r1_def q2_def r2_def X_def)
    then have "(H + q1) * 3600 + r1 * 60 + r2 = H * 3600 + M * 60 + S"
      by algebra
    then have "(H + X div 60) * 3600 + X mod 60 * 60 + S mod 60 = H * 3600 + M * 60 + S"
      by (simp only: q1_def r1_def q2_def r2_def)
    then have total: "rat_of_int (H + X div 60) * 3600 + rat_of_int (X mod 60) * 60
        + rat_of_int (S mod 60) = rat_of_int (H * 3600 + M * 60 + S)"
      by (metis (no_types) of_int_add of_int_mult of_int_numeral)
    have "0 \<le> X mod 60" "X mod 60 < 60" "0 \<le> S mod 60" "S mod 60 < 60"
      by simp_all
    then have bounds: "0 \<le> rat_of_int (X mod 60)" "rat_of_int (X mod 60) < 60"
      "0 \<le> rat_of_int (S mod 60)" "rat_of_int (S mod 60) < 60"
      by simp_all
    show ?thesis
      using p whole_val [OF wh] whole_val [OF wm] whole_val [OF ws] total bounds
      by (intro exI [of _ "Timestamp h' m' s'"] exI [of _ "rat_of_int (H + X div 60)"]
          exI [of _ "rat_of_int (X mod 60)"] exI [of _ "rat_of_int (S mod 60)"])
        (simp del: of_int_add of_int_mult)
  qed
  have ex: "parse_time (VStr ''90s'') = Inr (Timestamp (PInt 0) (PFloat (Fin 1)) (PFloat (Fin 30)))"
    by (rule parse_time_letter_values)
  have eq: "ts_eq (Timestamp (PInt 0) (PFloat (Fin 1)) (PFloat (Fin 30)))
        (Timestamp (PInt 0) (PInt 1) (PInt 30))"
    by (simp add: ts_eq_def)
  from gen ex eq show ?thesis
    by blast
qed

theorem parse_time_carry_normalization_witness:
  "float_of_string ''1h, 75m 90s'' = None
   \<and> raw_components ''1h, 75m 90s'' = Inr (PInt 1, PInt 75, PFloat (Fin 90))
   \<and> whole (PInt 1) 1 \<and> whole (PInt 75) 75 \<and> whole (PFloat (Fin 90)) 90
   \<and> (\<exists>ts hv mv sv. parse_time (VStr ''1h, 75m 90s'') = Inr ts
         \<and> val (ts_h ts) = Some hv \<and> val (ts_m ts) = Some mv \<and> val (ts_s ts) = Some sv
         \<and> 0 \<le> mv \<and> mv < 60 \<and> 0 \<le> sv \<and> sv < 60
         \<and> hv * 3600 + mv * 60 + sv = 8190)"
proof -
  have nan: "float_of_string ''1h, 75m 90s'' = None"
    by (simp add: not_a_number letter_strings)
  have raw: "raw_components ''1h, 75m 90s'' = Inr (PInt 1, PInt 75, PFloat (Fin 90))"
    by (rule raw_letter_values)
  have w: "whole (PInt 1) 1" "whole (PInt 75) 75" "whole (PFloat (Fin 90)) 90"
    by (simp_all add: whole_def)
  from parse_time_carry_normalization
    [of "''1h, 75m 90s''" "PInt 1" "PInt 75" "PFloat (Fin 90)" 1 75 90] nan raw w
  show ?thesis
    by simp
qed

text \<open>
  Claim C2 (unrecognized input).  The claim asks for a failure on a string of none of the
  three shapes.  The assertion of line 69 can never fail, because \<^verbatim>\<open>letter_re\<close> matches
  the empty prefix of every string: \<^verbatim>\<open>parse_time("not a time")\<close> and \<^verbatim>\<open>parse_time("")\<close>
  return \<^verbatim>\<open>Timestamp(0, 0, 0)\<close>, and no input at all yields the invalid-format error.
\<close>

theorem parse_time_unrecognized_is_zero:
  "parse_time (VStr ''not a time'') = Inr (Timestamp (PInt 0) (PInt 0) (PInt 0))
   \<and> parse_time (VStr '''') = Inr (Timestamp (PInt 0) (PInt 0) (PInt 0))
   \<and> (\<forall>t. parse_time t \<noteq> Inl InvalidTimeFormat)"
proof -
  have a: "parse_time (VStr ''not a time'') = Inr (Timestamp (PInt 0) (PInt 0) (PInt 0))"
    by (simp add: parse_time_of_string not_a_number zero_of_empty_prefix empty_prefix_strings)
  have b: "parse_time (VStr '''') = Inr (Timestamp (PInt 0) (PInt 0) (PInt 0))"
    by (simp add: parse_time_of_string not_a_number zero_of_empty_prefix empty_prefix_strings)
  from a b parse_time_not_invalid_format show ?thesis
    by blast
qed

text \<open>
  Claim C5 (optional hours in the colon shape).  \<^verbatim>\<open>parse_time("1:02:03")\<close> is
  \<^verbatim>\<open>Timestamp(1, 2, 3.0)\<close>, as claimed.  But the colon after the optional group of hours is
  not optional in \<^verbatim>\<open>colon_re\<close>, so \<^verbatim>\<open>"02:03"\<close> does not match it; the letter pattern then
  matches the empty prefix and the result is \<^verbatim>\<open>Timestamp(0, 0, 0)\<close>, not
  \<^verbatim>\<open>Timestamp(0, 2, 3)\<close>.  Hours are left out by writing \<^verbatim>\<open>":02:03"\<close>.
\<close>

theorem parse_time_colon_without_hours:
  "parse_time (VStr ''1:02:03'') = Inr (Timestamp (PInt 1) (PInt 2) (PFloat (Fin 3)))
   \<and> match_colon_re ''02:03'' = None
   \<and> parse_time (VStr ''02:03'') = Inr (Timestamp (PInt 0) (PInt 0) (PInt 0))
   \<and> parse_time (VStr '':02:03'') = Inr (Timestamp (PInt 0) (PInt 2) (PFloat (Fin 3)))"
proof -
  have c: "parse_time (VStr ''02:03'') = Inr (Timestamp (PInt 0) (PInt 0) (PInt 0))"
    by (simp add: parse_time_of_string not_a_number zero_of_empty_prefix empty_prefix_strings)
  from c show ?thesis
    by (simp add: parse_time_colon_values empty_prefix_strings)
qed

text \<open>
  Claim C6 (fractional seconds).  The group \<^verbatim>\<open>seconds\<close> of \<^verbatim>\<open>colon_re\<close> is \<^verbatim>\<open>\d+\<close>, and
  the match need not reach the end of the string: on \<^verbatim>\<open>"1:02:03.5"\<close> the group is
  \<^verbatim>\<open>"03"\<close>, the rest \<^verbatim>\<open>".5"\<close> is ignored, and the seconds are \<open>3.0\<close>, not \<open>3.5\<close>.  In
  the letter shape a fraction is not read either: \<^verbatim>\<open>"3.5s"\<close> gives zero.
\<close>

theorem parse_time_colon_fraction_dropped:
  "match_colon_re ''1:02:03.5'' = Some (Some ''1'', ''02'', ''03'')
   \<and> parse_time (VStr ''1:02:03.5'') = Inr (Timestamp (PInt 1) (PInt 2) (PFloat (Fin 3)))
   \<and> parse_time (VStr ''3.5s'') = Inr (Timestamp (PInt 0) (PInt 0) (PInt 0))"
proof -
  have c: "parse_time (VStr ''3.5s'') = Inr (Timestamp (PInt 0) (PInt 0) (PInt 0))"
    by (simp add: parse_time_of_string not_a_number zero_of_empty_prefix empty_prefix_strings)
  from c show ?thesis
    by (simp add: parse_time_colon_values colon_strings)
qed

section \<open>Results on \<^verbatim>\<open>Section\<close>\<close>

lemma duration_None_iff: "(duration sec = Inr None) = (sec_end sec = EndNone)"
  by (auto simp: duration_def bind_def split: endval.splits sum.splits)

lemma total_bounds:
  assumes "\<bar>a\<bar> \<le> (2::int) ^ 40" and "\<bar>b\<bar> \<le> 2 ^ 40" and "\<bar>c\<bar> \<le> 2 ^ 40"
  shows "\<bar>a\<bar> < 2 ^ 53" and "\<bar>b\<bar> < 2 ^ 53" and "\<bar>c\<bar> < 2 ^ 53"
    and "\<bar>a * 3600\<bar> < 2 ^ 53" and "\<bar>b * 60\<bar> < 2 ^ 53"
    and "\<bar>a * 3600 + b * 60\<bar> < 2 ^ 53"
    and "\<bar>a * 3600 + b * 60 + c\<bar> < 2 ^ 52"
  using assms by (simp_all add: abs_le_iff abs_less_iff)

lemma total_seconds_whole:
  assumes "whole h0 H" and "whole m0 M" and "whole s0 S"
    and "\<bar>H\<bar> \<le> 2 ^ 40" and "\<bar>M\<bar> \<le> 2 ^ 40" and "\<bar>S\<bar> \<le> 2 ^ 40"
  shows "\<exists>z. total_seconds (Timestamp h0 m0 s0) = Inr z \<and> whole z (H * 3600 + M * 60 + S)"
proof -
  note bs = total_bounds [OF assms(4,5,6)]
  have c: "whole (PInt 3600) 3600" "whole (PInt 60) 60"
    and cb: "\<bar>3600\<bar> < (2::int) ^ 53" "\<bar>60\<bar> < (2::int) ^ 53"
    by (simp_all add: whole_def)
  obtain a where a: "py_mul h0 (PInt 3600) = Inr a" and wa: "whole a (H * 3600)"
    using whole_mul [OF assms(1) c(1) bs(1) cb(1) bs(4)] by blast
  obtain b where b: "py_mul m0 (PInt 60) = Inr b" and wb: "whole b (M * 60)"
    using whole_mul [OF assms(2) c(2) bs(2) cb(2) bs(5)] by blast
  obtain ab where ab: "py_add a b = Inr ab" and wab: "whole ab (H * 3600 + M * 60)"
    using whole_add [OF wa wb bs(4) bs(5) bs(6)] by blast
  have "\<bar>H * 3600 + M * 60 + S\<bar> < 2 ^ 53"
    using bs(7) by simp
  then obtain z where z: "py_add ab s0 = Inr z" and wz: "whole z (H * 3600 + M * 60 + S)"
    using whole_add [OF wab assms(3) bs(6) bs(3)] by blast
  show ?thesis
    using a b ab z wz by (simp add: total_seconds_def)
qed

lemma duration_whole:
  assumes "whole sh SH" and "whole sm SM" and "whole ss SS"
    and "whole eh EH" and "whole em EM" and "whole es ES"
    and "\<bar>SH\<bar> \<le> 2 ^ 40" and "\<bar>SM\<bar> \<le> 2 ^ 40" and "\<bar>SS\<bar> \<le> 2 ^ 40"
    and "\<bar>EH\<bar> \<le> 2 ^ 40" and "\<bar>EM\<bar> \<le> 2 ^ 40" and "\<bar>ES\<bar> \<le> 2 ^ 40"
  shows "\<exists>d. duration \<lparr>name = n, start = Timestamp sh sm ss,
                sec_end = EndTime (Timestamp eh em es)\<rparr> = Inr (Some d)
           \<and> whole d ((EH * 3600 + EM * 60 + ES) - (SH * 3600 + SM * 60 + SS))"
proof -
  have eb: "\<bar>EH * 3600 + EM * 60 + ES\<bar> < 2 ^ 52"
    by (rule total_bounds(7) [OF assms(10,11,12)])
  have sb: "\<bar>SH * 3600 + SM * 60 + SS\<bar> < 2 ^ 52"
    by (rule total_bounds(7) [OF assms(7,8,9)])
  have b: "\<bar>EH * 3600 + EM * 60 + ES\<bar> < 2 ^ 53" "\<bar>SH * 3600 + SM * 60 + SS\<bar> < 2 ^ 53"
    "\<bar>(EH * 3600 + EM * 60 + ES) - (SH * 3600 + SM * 60 + SS)\<bar> < 2 ^ 53"
    using eb sb by simp_all
  obtain e where e: "total_seconds (Timestamp eh em es) = Inr e"
    and we: "whole e (EH * 3600 + EM * 60 + ES)"
    using total_seconds_whole [OF assms(4,5,6,10,11,12)] by blast
  obtain s where s: "total_seconds (Timestamp sh sm ss) = Inr s"
    and ws: "whole s (SH * 3600 + SM * 60 + SS)"
    using total_seconds_whole [OF assms(1,2,3,7,8,9)] by blast
  obtain d where d: "py_sub e s = Inr d"
    and wd: "whole d ((EH * 3600 + EM * 60 + ES) - (SH * 3600 + SM * 60 + SS))"
    using whole_sub [OF we ws b] by blast
  show ?thesis
    using e s d wd by (simp add: duration_def start_seconds_def)
qed

lemma duration_huge_hours:
  "duration \<lparr>name = VStr ''A'', start = Timestamp (PInt 0) (PInt 0) (PInt 0),
             sec_end = EndTime (Timestamp (PInt (10 ^ 400)) (PInt 0) (PFloat (Fin 0)))\<rparr>
     = Inl OverflowError"
proof -
  have "(2::int) ^ 1024 \<le> 10 ^ 400 * 3600"
    by simp
  then have "float_of_int (10 ^ 400 * 3600) = Inl OverflowError"
    by (rule float_of_int_overflow)
  then show ?thesis
    by (simp add: duration_def total_seconds_def float_op_def)
qed

text \<open>
  Claim C9 (duration).  As stated the claim fails in its promise of no failure mode: the
  totals are computed in Python arithmetic, and adding a float to an \<^verbatim>\<open>int\<close> beyond the
  float range raises \<^verbatim>\<open>OverflowError\<close>.  The end \<^verbatim>\<open>Timestamp(10 ** 400, 0, 0.0)\<close>, which
  \<^verbatim>\<open>parse_time\<close> builds from a colon string with 401 digits of hours, is such a case.
\<close>

theorem duration_overflow:
  "duration \<lparr>name = VStr ''A'', start = Timestamp (PInt 0) (PInt 0) (PInt 0),
             sec_end = EndTime (Timestamp (PInt (10 ^ 400)) (PInt 0) (PFloat (Fin 0)))\<rparr>
     = Inl OverflowError
   \<and> duration \<lparr>name = VStr ''A'', start = Timestamp (PInt 0) (PInt 0) (PInt 0),
             sec_end = EndTime (Timestamp (PInt (10 ^ 400)) (PInt 0) (PFloat (Fin 0)))\<rparr>
     \<noteq> Inr None"
  using duration_huge_hours by simp

text \<open>
  Claim C9, amended.  The duration is \<^verbatim>\<open>None\<close> exactly when the end is \<^verbatim>\<open>None\<close>.  For an
  end that is a timestamp the property evaluates the end's total seconds minus the
  start's in Python arithmetic.  When the six components are whole numbers of magnitude
  at most \<open>2 ^ 40\<close>, each an \<^verbatim>\<open>int\<close> or a \<^verbatim>\<open>float\<close>, it returns exactly the whole number
  \<open>(eh * 3600 + em * 60 + es) - (sh * 3600 + sm * 60 + ss)\<close>.  In general it can raise
  nothing but \<^verbatim>\<open>OverflowError\<close>.  Nothing is validated: an end of five minutes after a
  start of ten minutes gives \<open>-300\<close>.
\<close>

theorem duration_spec:
  "(duration sec = Inr None) = (sec_end sec = EndNone)
   \<and> duration (sec\<lparr>sec_end := EndNone\<rparr>) = Inr None
   \<and> (whole sh SH \<and> whole sm SM \<and> whole ss SS
        \<and> whole eh EH \<and> whole em EM \<and> whole es ES
        \<and> \<bar>SH\<bar> \<le> 2 ^ 40 \<and> \<bar>SM\<bar> \<le> 2 ^ 40 \<and> \<bar>SS\<bar> \<le> 2 ^ 40
        \<and> \<bar>EH\<bar> \<le> 2 ^ 40 \<and> \<bar>EM\<bar> \<le> 2 ^ 40 \<and> \<bar>ES\<bar> \<le> 2 ^ 40 \<longrightarrow>
       (\<exists>d. duration \<lparr>name = n, start = Timestamp sh sm ss,
                sec_end = EndTime (Timestamp eh em es)\<rparr> = Inr (Some d)
          \<and> whole d ((EH * 3600 + EM * 60 + ES) - (SH * 3600 + SM * 60 + SS))))
   \<and> (duration (sec\<lparr>sec_end := EndTime e\<rparr>) = Inl err \<longrightarrow> err = OverflowError)
   \<and> duration \<lparr>name = VStr ''A'', start = Timestamp (PInt 0) (PInt 10) (PInt 0),
               sec_end = EndTime (Timestamp (PInt 0) (PInt 5) (PInt 0))\<rparr>
       = Inr (Some (PInt (- 300)))"
proof -
  have b: "duration (sec\<lparr>sec_end := EndNone\<rparr>) = Inr None"
    by (simp add: duration_def)
  have d: "duration \<lparr>name = VStr ''A'', start = Timestamp (PInt 0) (PInt 10) (PInt 0),
               sec_end = EndTime (Timestamp (PInt 0) (PInt 5) (PInt 0))\<rparr>
       = Inr (Some (PInt (- 300)))"
    by (simp add: duration_def start_seconds_def total_seconds_def)
  have c: "whole sh SH \<and> whole sm SM \<and> whole ss SS
        \<and> whole eh EH \<and> whole em EM \<and> whole es ES
        \<and> \<bar>SH\<bar> \<le> 2 ^ 40 \<and> \<bar>SM\<bar> \<le> 2 ^ 40 \<and> \<bar>SS\<bar> \<le> 2 ^ 40
        \<and> \<bar>EH\<bar> \<le> 2 ^ 40 \<and> \<bar>EM\<bar> \<le> 2 ^ 40 \<and> \<bar>ES\<bar> \<le> 2 ^ 40 \<longrightarrow>
       (\<exists>d. duration \<lparr>name = n, start = Timestamp sh sm ss,
                sec_end = EndTime (Timestamp eh em es)\<rparr> = Inr (Some d)
          \<and> whole d ((EH * 3600 + EM * 60 + ES) - (SH * 3600 + SM * 60 + SS)))"
  proof (intro impI, elim conjE)
    assume "whole sh SH" "whole sm SM" "whole ss SS" "whole eh EH" "whole em EM" "whole es ES"
      "\<bar>SH\<bar> \<le> 2 ^ 40" "\<bar>SM\<bar> \<le> 2 ^ 40" "\<bar>SS\<bar> \<le> 2 ^ 40"
      "\<bar>EH\<bar> \<le> 2 ^ 40" "\<bar>EM\<bar> \<le> 2 ^ 40" "\<bar>ES\<bar> \<le> 2 ^ 40"
    then show "\<exists>d. duration \<lparr>name = n, start = Timestamp sh sm ss,
                sec_end = EndTime (Timestamp eh em es)\<rparr> = Inr (Some d)
          \<and> whole d ((EH * 3600 + EM * 60 + ES) - (SH * 3600 + SM * 60 + SS))"
      by (rule duration_whole)
  qed
  have e: "duration (sec\<lparr>sec_end := EndTime e\<rparr>) = Inl err \<longrightarrow> err = OverflowError"
    by (rule impI) (rule duration_error)
  show ?thesis
    by (intro conjI duration_None_iff b c e d)
qed

theorem duration_spec_witness:
  "whole (PInt 0) 0 \<and> whole (PInt 10) 10 \<and> whole (PFloat (Fin 0)) 0
   \<and> whole (PInt 1) 1 \<and> whole (PInt 2) 2 \<and> whole (PFloat (Fin 3)) 3
   \<and> (\<exists>d. duration \<lparr>name = VStr ''A'', start = Timestamp (PInt 0) (PInt 10) (PFloat (Fin 0)),
                sec_end = EndTime (Timestamp (PInt 1) (PInt 2) (PFloat (Fin 3)))\<rparr>
              = Inr (Some d)
          \<and> whole d 3123)
   \<and> duration \<lparr>name = VStr ''A'', start = Timestamp (PInt 0) (PInt 0) (PInt 0),
               sec_end = EndTime (Timestamp (PInt (10 ^ 400)) (PInt 0) (PFloat (Fin 0)))\<rparr>
       = Inl OverflowError"
proof -
  have w: "whole (PInt 0) 0" "whole (PInt 10) 10" "whole (PFloat (Fin 0)) 0"
    "whole (PInt 1) 1" "whole (PInt 2) 2" "whole (PFloat (Fin 3)) 3"
    by (simp_all add: whole_def)
  from duration_spec
    [where sh = "PInt 0" and sm = "PInt 10" and ss = "PFloat (Fin 0)"
      and eh = "PInt 1" and em = "PInt 2" and es = "PFloat (Fin 3)"
      and SH = 0 and SM = 10 and SS = 0 and EH = 1 and EM = 2 and ES = 3
      and n = "VStr ''A''"
      and sec = "\<lparr>name = VStr ''A'', start = Timestamp (PInt 0) (PInt 0) (PInt 0),
                   sec_end = EndNone\<rparr>"
      and e = "Timestamp (PInt (10 ^ 400)) (PInt 0) (PFloat (Fin 0))"
      and err = OverflowError]
    w duration_huge_hours
  show ?thesis
    by simp
qed

section \<open>Results on \<^verbatim>\<open>load_config\<close>\<close>

lemma load_loop_append:
  "load_loop p (xs @ ys) acc =
     (case load_loop p xs acc of Inl e \<Rightarrow> Inl e | Inr secs \<Rightarrow> load_loop p ys secs)"
proof (induction xs arbitrary: acc)
  case Nil
  show ?case by simp
next
  case (Cons x xs)
  obtain k v where x: "x = (k, v)"
    by (cases x)
  show ?case
    using Cons.IH by (simp add: x split: sum.split)
qed

lemma loop_body_number:
  "isinstance_float_int v \<Longrightarrow> loop_body p k v = Inl TypeError"
  by (cases v) (simp_all add: loop_body_def)

text \<open>
  What the loop body leaves in a section when a key is missing: the start is the value
  of \<open>prev_start\<close>, the end is the \<open>-1\<close> of the constructor call.
\<close>

lemma loop_body_default_start:
  assumes "loop_body p k v = Inr sec" and "map_of (dict_items v) (VStr ''start'') = None"
  shows "start sec = p"
  using assms
  by (auto simp: loop_body_def parse_field_def split: if_splits sum.splits option.splits)

lemma loop_body_default_end:
  assumes "loop_body p k v = Inr sec" and "map_of (dict_items v) (VStr ''end'') = None"
  shows "sec_end sec = EndInt (- 1)"
  using assms
  by (auto simp: loop_body_def parse_field_def split: if_splits sum.splits option.splits)

text \<open>
  For a section whose end is \<^verbatim>\<open>None\<close> the command has no \<^verbatim>\<open>-t\<close> argument.
\<close>

lemma extract_section_without_end:
  "extract_section input out_dir (sec\<lparr>sec_end := EndNone\<rparr>) =
     bind (start_seconds sec) (\<lambda>s.
       Inr [Lit ''ffmpeg'', Lit ''-i'', Lit (path_str input), Lit ''-c'', Lit ''copy'',
            Lit ''-ss'', StrNum s, OutFile out_dir (name sec) (suffix input)])"
  by (simp add: extract_section_def start_seconds_def)

text \<open>
  Claim C1 (cascading default).  \<open>prev_start\<close> is set to \<^verbatim>\<open>(0,0,0)\<close> before the loop and
  never assigned again, so every section without an explicit start begins at zero.  For
  the document of the claim, section B starts at \<^verbatim>\<open>(0,0,0)\<close> and not at the end
  \<^verbatim>\<open>Timestamp(1,0,0)\<close> of section A.
\<close>

theorem load_config_start_not_cascaded:
  "load_config (VDict [(VStr ''A'', VDict [(VStr ''end'', VStr ''1:00:00'')]),
                       (VStr ''B'', VDict [(VStr ''end'', VStr ''2:00:00'')])])
   = Inr [\<lparr>name = VStr ''A'', start = Timestamp (PInt 0) (PInt 0) (PInt 0),
             sec_end = EndTime (Timestamp (PInt 1) (PInt 0) (PFloat (Fin 0)))\<rparr>,
          \<lparr>name = VStr ''B'', start = Timestamp (PInt 0) (PInt 0) (PInt 0),
             sec_end = EndTime (Timestamp (PInt 2) (PInt 0) (PFloat (Fin 0)))\<rparr>]"
  by (simp add: load_config_def loop_body_def parse_field_def parse_time_colon_values)

text \<open>
  Claim C3 (bare-number shorthand).  For a value that is a number the loop executes
  \<^verbatim>\<open>section_cfg['end'] = v\<close>; a dataclass instance has no item assignment, so
  \<^verbatim>\<open>TypeError\<close> is raised and no section is built: the document \<^verbatim>\<open>{A: 5}\<close> yields an error
  instead of one section ending at five minutes.
\<close>

theorem load_config_bare_number_raises:
  "load_config (VDict [(VStr ''A'', VInt 5)]) = Inl TypeError"
  by (simp add: load_config_def loop_body_def)

text \<open>
  Claim C4 (missing end).  Every section is created with \<^verbatim>\<open>end=-1\<close>, and a sub-mapping
  without the key \<^verbatim>\<open>end\<close> leaves it so: the end is the integer \<open>-1\<close>, not \<^verbatim>\<open>None\<close>.
  On such a section \<^verbatim>\<open>duration\<close> raises \<^verbatim>\<open>TypeError\<close>, and so does \<^verbatim>\<open>extract_section\<close>,
  which takes the branch for a present end and asks for the duration.
\<close>

theorem load_config_missing_end_is_minus_one:
  "load_config (VDict [(VStr ''A'', VDict [(VStr ''start'', VInt 5)])])
     = Inr [\<lparr>name = VStr ''A'', start = Timestamp (PInt 0) (PInt 5) (PFloat (Fin 0)),
               sec_end = EndInt (- 1)\<rparr>]
   \<and> duration \<lparr>name = VStr ''A'', start = Timestamp (PInt 0) (PInt 5) (PFloat (Fin 0)),
                sec_end = EndInt (- 1)\<rparr> = Inl TypeError
   \<and> extract_section \<lparr>path_str = ''in.mp4'', suffix = ''.mp4''\<rparr> ''out''
        \<lparr>name = VStr ''A'', start = Timestamp (PInt 0) (PInt 5) (PFloat (Fin 0)),
           sec_end = EndInt (- 1)\<rparr> = Inl TypeError"
proof -
  have "py_float (VInt 5) = Inr (Fin 5)"
    by (simp add: float_of_int_numeral)
  then have five: "parse_time (VInt 5) = Inr (Timestamp (PInt 0) (PInt 5) (PFloat (Fin 0)))"
    by (simp add: parse_time_of_number parse_time_number_values)
  have a: "load_config (VDict [(VStr ''A'', VDict [(VStr ''start'', VInt 5)])])
     = Inr [\<lparr>name = VStr ''A'', start = Timestamp (PInt 0) (PInt 5) (PFloat (Fin 0)),
               sec_end = EndInt (- 1)\<rparr>]"
    by (simp add: load_config_def loop_body_def parse_field_def five)
  have b: "duration \<lparr>name = VStr ''A'', start = Timestamp (PInt 0) (PInt 5) (PFloat (Fin 0)),
                sec_end = EndInt (- 1)\<rparr> = Inl TypeError"
    by (simp add: duration_def)
  have c: "extract_section \<lparr>path_str = ''in.mp4'', suffix = ''.mp4''\<rparr> ''out''
        \<lparr>name = VStr ''A'', start = Timestamp (PInt 0) (PInt 5) (PFloat (Fin 0)),
           sec_end = EndInt (- 1)\<rparr> = Inl TypeError"
    by (simp add: extract_section_def duration_def)
  from a b c show ?thesis
    by blast
qed

text \<open>
  Claim C10 (boolean values).  A boolean passes \<^verbatim>\<open>isinstance(v, (float, int))\<close> and is
  not a \<^verbatim>\<open>dict\<close>, so the loop treats it exactly as it treats the integer it stands for,
  and the error for an invalid section is not raised for it.  Whatever the entries before
  and after it, \<^verbatim>\<open>load_config\<close> either fails as it does on the entries before it, or stops
  at the boolean with the \<^verbatim>\<open>TypeError\<close> of the number branch.
\<close>

theorem bool_value_takes_number_branch:
  "isinstance_float_int (VBool b) \<and> \<not> isinstance_dict (VBool b)
   \<and> loop_body prev_start k (VBool b) = loop_body prev_start k (VInt (if b then 1 else 0))
   \<and> loop_body prev_start k (VBool b) \<noteq> Inl InvalidSectionConfig
   \<and> load_config (VDict (pre @ (k, VBool b) # post)) =
       (case load_config (VDict pre) of Inl e \<Rightarrow> Inl e | Inr secs \<Rightarrow> Inl TypeError)"
proof -
  have body: "loop_body p k (VBool b) = Inl TypeError" for p
    by (simp add: loop_body_number)
  have int: "loop_body p k (VInt i) = Inl TypeError" for p i
    by (simp add: loop_body_number)
  have "load_loop p (pre @ (k, VBool b) # post) acc =
       (case load_loop p pre acc of Inl e \<Rightarrow> Inl e | Inr secs \<Rightarrow> Inl TypeError)" for p acc
    by (simp add: load_loop_append body split: sum.split)
  then have "load_config (VDict (pre @ (k, VBool b) # post)) =
       (case load_config (VDict pre) of Inl e \<Rightarrow> Inl e | Inr secs \<Rightarrow> Inl TypeError)"
    by (simp add: load_config_def)
  then show ?thesis
    using body int by simp
qed

end
